theory Spec2Isabelle
  imports Complex_Main "HOL-Library.Multiset"
begin

section \<open>Python values, exceptions and what the libraries supply\<close>

text \<open>
  The program \<^verbatim>\<open>pop_db.py\<close> fills the tables of a pizza-delivery database with fake
  rows. Its own code is the record classes \<^verbatim>\<open>Fake*\<close>, the generators of
  \<^verbatim>\<open>RandomDataGenerator\<close> and the stages of \<^verbatim>\<open>DatabaseFeeder\<close>. Everything else
  is a library: \<^verbatim>\<open>random\<close>, \<^verbatim>\<open>faker\<close>, \<^verbatim>\<open>passlib\<close>, \<^verbatim>\<open>records\<close> over
  \<^verbatim>\<open>sqlalchemy\<close> and PostgreSQL.

  A Python \<^verbatim>\<open>str\<close> is a \<^typ>\<open>string\<close> here; a character outside ASCII is written as its
  UTF-8 bytes.
\<close>

datatype violation = UniqueViolation | ForeignKeyViolation | NotNullViolation | CheckViolation

text \<open>
  The exceptions of the program. \<^verbatim>\<open>sqlalchemy.exc.IntegrityError\<close> is the one class under
  which the gateway reports every violated integrity constraint (the driver's SQLSTATE class
  23: unique, foreign key, not null, check); \<open>OperationalError\<close> stands for every other
  exception of the gateway.
\<close>

datatype dberror = IntegrityError violation | OperationalError

datatype error =
    ValueError string
  | AttributeError string
  | IndexError
  | DBError dberror

text \<open>
  What the libraries hand to the program is a parameter of the model:
  \<^item> \<open>draws\<close>: the successive outcomes of the module \<^verbatim>\<open>random\<close>. Each call of its API
    (\<^verbatim>\<open>choice\<close>, \<^verbatim>\<open>shuffle\<close>, \<^verbatim>\<open>randint\<close>, \<^verbatim>\<open>uniform\<close>, \<^verbatim>\<open>sample\<close>) takes the next
    outcome, \<open>drawn\<close> counts them;
  \<^item> \<open>texts\<close>, \<open>text_lists\<close>, \<open>amounts\<close>: the successive values of the fake-value provider
    (a text, a list of texts, a float carried as a real; the program never computes with
    one), and the password hash; \<open>served\<close> counts them;
  \<^item> \<open>title\<close>: Python's \<^verbatim>\<open>str.title\<close>, whose case tables are Unicode's.
  The record also holds what the process has printed: a text, the \<^verbatim>\<open>repr\<close> of a list
  of identifiers, or the closing line with the elapsed time (the clock is not modelled).
\<close>

datatype out_line = Line string | IdList "int list" | EndLine

record extern =
  draws :: "nat \<Rightarrow> nat"
  drawn :: nat
  texts :: "nat \<Rightarrow> string"
  text_lists :: "nat \<Rightarrow> string list"
  amounts :: "nat \<Rightarrow> real"
  served :: nat
  title :: "string \<Rightarrow> string"
  printed :: "out_line list"

definition print :: "out_line \<Rightarrow> extern \<Rightarrow> extern" where
  "print l e = e\<lparr>printed := printed e @ [l]\<rparr>"

definition next_draw :: "extern \<Rightarrow> nat \<times> extern" where
  "next_draw e = (draws e (drawn e), e\<lparr>drawn := Suc (drawn e)\<rparr>)"

definition fake_text :: "extern \<Rightarrow> string \<times> extern" where
  "fake_text e = (texts e (served e), e\<lparr>served := Suc (served e)\<rparr>)"

definition fake_text_list :: "extern \<Rightarrow> string list \<times> extern" where
  "fake_text_list e = (text_lists e (served e), e\<lparr>served := Suc (served e)\<rparr>)"

definition fake_amount :: "extern \<Rightarrow> real \<times> extern" where
  "fake_amount e = (amounts e (served e), e\<lparr>served := Suc (served e)\<rparr>)"

subsection \<open>The module random\<close>

text \<open>\<^verbatim>\<open>random.choice(seq)\<close>: IndexError on an empty sequence, else one of its elements.\<close>

definition choice :: "'a list \<Rightarrow> extern \<Rightarrow> (error + 'a) \<times> extern" where
  "choice xs e =
     (if xs = [] then (Inl IndexError, e)
      else (let (d, e') = next_draw e in (Inr (xs ! (d mod length xs)), e')))"

text \<open>\<^verbatim>\<open>random.choice((a, b))\<close> on a pair written in the source: it cannot fail.\<close>

definition choice2 :: "'a \<Rightarrow> 'a \<Rightarrow> extern \<Rightarrow> 'a \<times> extern" where
  "choice2 a b e = (let (d, e') = next_draw e in (if d mod 2 = 0 then a else b, e'))"

text \<open>
  \<^verbatim>\<open>random.shuffle(x)\<close> rearranges the list in place. The outcome drawn selects the
  arrangement: \<open>permute d xs\<close> reads \<open>d\<close> in the factorial number system, one digit for the
  place of each element, so every arrangement of \<open>xs\<close> is \<open>permute d xs\<close> for some \<open>d\<close>.
\<close>

fun permute :: "nat \<Rightarrow> 'a list \<Rightarrow> 'a list" where
  "permute d [] = []"
| "permute d (x # xs) =
     (let n = Suc (length xs); ys = permute (d div n) xs; k = d mod n
      in take k ys @ x # drop k ys)"

definition shuffle :: "'a list \<Rightarrow> extern \<Rightarrow> 'a list \<times> extern" where
  "shuffle xs e = (let (d, e') = next_draw e in (permute d xs, e'))"

text \<open>\<^verbatim>\<open>random.randint(a, b)\<close> with \<open>a \<le> b\<close>, as at every call of the source.\<close>

definition randint :: "int \<Rightarrow> int \<Rightarrow> extern \<Rightarrow> int \<times> extern" where
  "randint a b e = (let (d, e') = next_draw e in (a + int (d mod nat (b - a + 1)), e'))"

text \<open>
  \<^verbatim>\<open>random.uniform(a, b)\<close> is \<^verbatim>\<open>a + (b - a) * random()\<close>, and \<^verbatim>\<open>random()\<close> a multiple
  of \<open>2 ^ -53\<close> below 1; the rounding of the float arithmetic is left out.
\<close>

definition uniform :: "real \<Rightarrow> real \<Rightarrow> extern \<Rightarrow> real \<times> extern" where
  "uniform a b e =
     (let (d, e') = next_draw e in (a + (b - a) * (real (d mod 2 ^ 53) / 2 ^ 53), e'))"

subsection \<open>The string operations the source uses\<close>

text \<open>
  \<^verbatim>\<open>\d\<close> and the whitespace of \<^verbatim>\<open>strip\<close> are taken on ASCII: the provider's locale is
  \<^verbatim>\<open>fr_FR\<close>, its digits and blanks are ASCII's.
\<close>

definition isdigit :: "char \<Rightarrow> bool" where
  "isdigit c \<longleftrightarrow> c \<in> set ''0123456789''"

definition isspace :: "char \<Rightarrow> bool" where
  "isspace c \<longleftrightarrow>
     c \<in> {CHR '' '', CHR 0x09, CHR 0x0A, CHR 0x0B, CHR 0x0C, CHR 0x0D,
          CHR 0x1C, CHR 0x1D, CHR 0x1E, CHR 0x1F}"

definition lstrip :: "string \<Rightarrow> string" where
  "lstrip s = dropWhile isspace s"

definition rstrip :: "string \<Rightarrow> string" where
  "rstrip s = rev (dropWhile isspace (rev s))"

text \<open>\<^verbatim>\<open>s.replace(' ', '')\<close>\<close>

definition remove_spaces :: "string \<Rightarrow> string" where
  "remove_spaces s = filter (\<lambda>c. c \<noteq> CHR '' '') s"

text \<open>\<^verbatim>\<open>s.split('\n')[0]\<close>\<close>

definition first_line :: "string \<Rightarrow> string" where
  "first_line s = takeWhile (\<lambda>c. c \<noteq> CHR 0x0A) s"

text \<open>
  \<^verbatim>\<open>re.match(r'^(\d+),?(.*)$', street)\<close> on a text without a line feed: the first group
  takes every leading digit, the comma is skipped when it follows, the second group is
  the rest. There is a match exactly when the text starts with a digit; the groups are
  then two, so the source's test \<^verbatim>\<open>len(m.groups()) == 2\<close> adds nothing.
\<close>

definition match_street :: "string \<Rightarrow> (string \<times> string) option" where
  "match_street street =
     (let number = takeWhile isdigit street; rest = dropWhile isdigit street
      in if number = [] then None
         else Some (number, (case rest of c # cs \<Rightarrow> (if c = CHR '','' then cs else rest)
                                        | [] \<Rightarrow> [])))"

text \<open>\<^verbatim>\<open>re.sub(r'^\+33|\D', '', s)\<close>: the prefix +33 only at the start.\<close>

definition sub_prefix33 :: "string \<Rightarrow> string" where
  "sub_prefix33 s =
     (if take 3 s = ''+33'' then filter isdigit (drop 3 s) else filter isdigit s)"

text \<open>\<^verbatim>\<open>re.sub(r'\+33|\D', '', s)\<close>: +33 wherever it stands.\<close>

fun sub_any33 :: "string \<Rightarrow> string" where
  "sub_any33 (a # b # c # cs) =
     (if [a, b, c] = ''+33'' then sub_any33 cs
      else if isdigit a then a # sub_any33 (b # c # cs)
      else sub_any33 (b # c # cs))"
| "sub_any33 cs = filter isdigit cs"

definition pad_phone :: "string \<Rightarrow> string" where
  "pad_phone s = (if length s < 10 then CHR ''0'' # s else s)"

definition e_acute :: string where "e_acute = [CHR 0xC3, CHR 0xA9]"
definition e_grave :: string where "e_grave = [CHR 0xC3, CHR 0xA8]"
definition a_grave :: string where "a_grave = [CHR 0xC3, CHR 0xA0]"
definition a_circ :: string where "a_circ = [CHR 0xC3, CHR 0xA2]"
definition i_trema :: string where "i_trema = [CHR 0xC3, CHR 0xAF]"

section \<open>The record classes and their fake constructors\<close>

record Member =
  name :: string
  firstname :: string
  works_at_pizzeria_id :: "int option"
  user_account_id :: "int option"
  address_id :: "int option"

text \<open>
  \<^verbatim>\<open>address_id\<close> is annotated \<^verbatim>\<open>int\<close>, but the list it is read from can hold \<^verbatim>\<open>None\<close>
  once \<^verbatim>\<open>pizzerias\<close> has padded it, hence the option.
\<close>

definition FakeMember :: "int option \<Rightarrow> int option \<Rightarrow> extern \<Rightarrow> Member \<times> extern" where
  "FakeMember pizz_id addr_id e =
     (let (last_name, e1) = fake_text e; (first_name, e2) = fake_text e1
      in (\<lparr>Member.name = last_name, firstname = first_name,
           works_at_pizzeria_id = pizz_id, user_account_id = None,
           address_id = addr_id\<rparr>, e2))"

record Address =
  street_name :: string
  home_number :: string
  zip_code :: string
  country :: "string option"

definition FakeAddress :: "extern \<Rightarrow> Address \<times> extern" where
  "FakeAddress e =
     (let (address, e1) = fake_text e;
          street = first_line address;
          (number, street_title, e2) =
             (case match_street street of
                Some (m1, m2) \<Rightarrow> (m1, title e1 (lstrip m2), e1)
              | None \<Rightarrow> (let (building_number, e') = fake_text e1
                         in (building_number, rstrip street, e')));
          (postcode, e3) = fake_text e2
      in (\<lparr>street_name = street_title, home_number = number,
           zip_code = remove_spaces postcode, country = Some ''France''\<rparr>, e3))"

record UserAccount =
  email :: string
  phone_nb :: string
  member_id :: int
  hashed_pwd :: string

text \<open>
  The password is \<^verbatim>\<open>random.sample(string.printable, 15)\<close>, one outcome of \<^verbatim>\<open>random\<close>,
  and its hash is what the hashing primitive returns: a text the program only stores.
\<close>

definition FakeUserAccount :: "int \<Rightarrow> extern \<Rightarrow> UserAccount \<times> extern" where
  "FakeUserAccount memb_id e =
     (let (mail, e1) = fake_text e;
          (phone_number, e2) = fake_text e1;
          (password, e3) = next_draw e2;
          (hash, e4) = fake_text e3
      in (\<lparr>email = mail, phone_nb = pad_phone (sub_prefix33 phone_number),
           member_id = memb_id, hashed_pwd = hash\<rparr>, e4))"

record TakenOrder =
  member_id :: int
  address_id :: "int option"
  status_id :: int
  pizzeria_id :: int
  is_paid :: bool
  bill_id :: "int option"

definition FakeTakenOrder ::
  "int \<Rightarrow> int option \<Rightarrow> int \<Rightarrow> int list \<Rightarrow> extern \<Rightarrow> (error + TakenOrder) \<times> extern" where
  "FakeTakenOrder memb_id addr_id pizz_id order_status_ids e =
     (case choice order_status_ids e of
        (Inl err, e1) \<Rightarrow> (Inl err, e1)
      | (Inr status, e1) \<Rightarrow>
          (let (paid, e2) = choice2 True False e1
           in (Inr \<lparr>TakenOrder.member_id = memb_id, address_id = addr_id,
                    status_id = status, pizzeria_id = pizz_id, is_paid = paid,
                    bill_id = None\<rparr>, e2)))"

record Bill =
  emission_date :: string
  total_amout_ati :: real
  order_id :: int

definition FakeBill :: "int \<Rightarrow> extern \<Rightarrow> Bill \<times> extern" where
  "FakeBill ord_id e =
     (let (date_time, e1) = fake_text e; (amount, e2) = fake_amount e1
      in (\<lparr>emission_date = date_time, total_amout_ati = amount, order_id = ord_id\<rparr>, e2))"

record Product =
  name :: string
  barcode :: string
  gram_weight :: int
  unit_price_ati :: real

definition FakeProduct :: "string \<Rightarrow> extern \<Rightarrow> Product \<times> extern" where
  "FakeProduct nm e =
     (let (ean13, e1) = fake_text e;
          (weight, e2) = randint 20 2000 e1;
          (price, e3) = fake_amount e2
      in (\<lparr>Product.name = nm, barcode = ean13, gram_weight = weight * 5,
           unit_price_ati = price\<rparr>, e3))"

record Pizzeria =
  name :: string
  phone_nb :: string
  address_id :: "int option"

definition FakePizzeria :: "string \<Rightarrow> int option \<Rightarrow> extern \<Rightarrow> Pizzeria \<times> extern" where
  "FakePizzeria nm addr_id e =
     (let (phone_number, e1) = fake_text e
      in (\<lparr>Pizzeria.name = nm, phone_nb = pad_phone (sub_any33 phone_number),
           address_id = addr_id\<rparr>, e1))"

record Recipe =
  name :: string
  description :: "string list"
  is_public :: bool

definition FakeRecipe :: "string \<Rightarrow> extern \<Rightarrow> Recipe \<times> extern" where
  "FakeRecipe nm e =
     (let (paragraphs, e1) = fake_text_list e; (public, e2) = choice2 True False e1
      in (\<lparr>Recipe.name = nm, description = paragraphs, is_public = public\<rparr>, e2))"

record CatalogItem =
  name :: string
  description :: "string list"
  picture_file :: string
  unit_price_ati :: real
  is_available :: bool
  is_displayed :: bool
  recipe_id :: "int option"
  product_id :: "int option"

definition FakeCatalogItem ::
  "string \<Rightarrow> string \<Rightarrow> int \<Rightarrow> extern \<Rightarrow> (error + CatalogItem) \<times> extern" where
  "FakeCatalogItem nm parent parent_id e =
     (let (sentences, e1) = fake_text_list e;
          (file_name, e2) = fake_text e1;
          (price, e3) = fake_amount e2;
          (available, e4) = choice2 True False e3;
          (displayed, e5) = choice2 True False e4;
          item = \<lparr>CatalogItem.name = nm, description = sentences,
                  picture_file = file_name, unit_price_ati = price,
                  is_available = available, is_displayed = displayed,
                  recipe_id = None, product_id = None\<rparr>
      in if parent = ''recipe'' then (Inr (item\<lparr>recipe_id := Some parent_id\<rparr>), e5)
         else if parent = ''product'' then (Inr (item\<lparr>product_id := Some parent_id\<rparr>), e5)
         else (Inl (AttributeError (''Unknown parent \"'' @ parent @ ''\"'')), e5))"

record Role =
  name :: string

record Permission =
  label :: string

record OrderStatus =
  label :: string

record Keyword =
  name :: string

section \<open>The generators of RandomDataGenerator\<close>

text \<open>
  Each generator is a Python generator function that a \<^verbatim>\<open>for\<close> loop of the feeder
  consumes to its end. Whatever a generator raises, it raises before its first
  \<^verbatim>\<open>yield\<close> (the size checks) or while it builds its first record (an empty list
  given to \<^verbatim>\<open>random.choice\<close>), and the loop body never touches \<^verbatim>\<open>random\<close> or the
  provider; so the model runs the generator to its end first and returns the list of its
  records or its exception. A list argument that the generator changes in place is
  returned next to the result, changed.
\<close>

fun yield_each :: "('a \<Rightarrow> extern \<Rightarrow> 'b \<times> extern) \<Rightarrow> 'a list \<Rightarrow> extern \<Rightarrow> 'b list \<times> extern" where
  "yield_each f [] e = ([], e)"
| "yield_each f (x # xs) e =
     (let (y, e1) = f x e; (ys, e2) = yield_each f xs e1 in (y # ys, e2))"

fun try_each ::
  "('a \<Rightarrow> extern \<Rightarrow> (error + 'b) \<times> extern) \<Rightarrow> 'a list \<Rightarrow> extern \<Rightarrow> (error + 'b list) \<times> extern" where
  "try_each f [] e = (Inr [], e)"
| "try_each f (x # xs) e =
     (case f x e of
        (Inl err, e1) \<Rightarrow> (Inl err, e1)
      | (Inr y, e1) \<Rightarrow>
          (case try_each f xs e1 of
             (Inl err, e2) \<Rightarrow> (Inl err, e2)
           | (Inr ys, e2) \<Rightarrow> (Inr (y # ys), e2)))"

definition and_then ::
  "(error + 'a) \<times> extern \<Rightarrow> ('a \<Rightarrow> extern \<Rightarrow> (error + 'b) \<times> extern) \<Rightarrow> (error + 'b) \<times> extern" where
  "and_then r f = (case r of (Inl err, e) \<Rightarrow> (Inl err, e) | (Inr x, e) \<Rightarrow> f x e)"

text \<open>\<^verbatim>\<open>range(size)\<close>: empty when \<open>size\<close> is not positive.\<close>

definition py_range :: "int \<Rightarrow> nat list" where
  "py_range n = [0..<nat n]"

definition addresses :: "int \<Rightarrow> extern \<Rightarrow> Address list \<times> extern" where
  "addresses sz e = yield_each (\<lambda>i. FakeAddress) (py_range sz) e"

definition members ::
  "int option list \<Rightarrow> int list \<Rightarrow> int \<Rightarrow> extern
     \<Rightarrow> (error + Member list) \<times> int option list \<times> extern" where
  "members address_ids pizzeria_ids sz e =
     (if int (length address_ids) < sz
      then (Inl (ValueError ''Not enough address_ids''), address_ids, e)
      else
        (let (staff_ids, e1) = yield_each (\<lambda>i. choice2 None (Some i)) pizzeria_ids e;
             (shuffled, e2) = shuffle address_ids e1;
             (res, e3) =
                try_each (\<lambda>i e. and_then (choice staff_ids e) (\<lambda>p e'.
                            (let (m, e'') = FakeMember p (shuffled ! i) e' in (Inr m, e''))))
                  (py_range sz) e2
         in (res, shuffled, e3)))"

definition user_accounts ::
  "int list \<Rightarrow> int \<Rightarrow> extern \<Rightarrow> (error + UserAccount list) \<times> int list \<times> extern" where
  "user_accounts member_ids sz e =
     (if int (length member_ids) < sz
      then (Inl (ValueError ''Not enough member_ids''), member_ids, e)
      else
        (let (shuffled, e1) = shuffle member_ids e;
             (accounts, e2) = yield_each (\<lambda>i. FakeUserAccount (shuffled ! i)) (py_range sz) e1
         in (Inr accounts, shuffled, e2)))"

definition taken_orders ::
  "int list \<Rightarrow> int option list \<Rightarrow> int list \<Rightarrow> int list \<Rightarrow> int \<Rightarrow> extern
     \<Rightarrow> (error + TakenOrder list) \<times> int list \<times> int option list \<times> extern" where
  "taken_orders member_ids address_ids pizzeria_ids order_status_ids sz e =
     (if int (length member_ids) < sz
      then (Inl (ValueError ''Not enough member_ids''), member_ids, address_ids, e)
      else if int (length address_ids) < sz
      then (Inl (ValueError ''Not enough address_ids''), member_ids, address_ids, e)
      else
        (let (members', e1) = shuffle member_ids e;
             (addresses', e2) = shuffle address_ids e1;
             (res, e3) =
                try_each (\<lambda>i e.
                    and_then (choice members' e) (\<lambda>m e.
                    and_then (choice addresses' e) (\<lambda>a e.
                    and_then (choice pizzeria_ids e) (\<lambda>p e.
                      FakeTakenOrder m a p order_status_ids e))))
                  (py_range sz) e2
         in (res, members', addresses', e3)))"

definition bills :: "int list \<Rightarrow> int \<Rightarrow> extern \<Rightarrow> (error + Bill list) \<times> extern" where
  "bills taken_order_ids sz e =
     (if int (length taken_order_ids) < sz
      then (Inl (ValueError ''Not enough taken_order_ids''), print (IdList taken_order_ids) e)
      else
        (let (bs, e1) = yield_each (\<lambda>i. FakeBill (taken_order_ids ! i)) (py_range sz) e
         in (Inr bs, e1)))"

definition product_names :: "string list" where
  "product_names =
     [''farine de bl'' @ e_acute, ''tomate pel'' @ e_acute @ ''e'', ''pulpe de tomate'',
      ''mozzarella'', ''ananas'', ''parmesan'', ''viande hach'' @ e_acute @ ''e de boeuf'',
      ''saumon'', ''fromage de ch'' @ e_grave @ ''vre'', ''artichaut'', ''poivron'',
      ''thon'', ''oignon'', ''ail'', ''p'' @ a_circ @ ''te'', ''oeuf'',
      ''m'' @ e_acute @ ''lange fruits de mer'',
      ''jambon'', ''jambon sec'', ''chorizo'', ''truffe'', ''petit pois'',
      ''viande de boeuf'', ''moule'', ''palourde'', ''coque'',
      ''farine d'' @ [CHR 0x27] @ e_acute @ ''peautre'', ''langoustine'',
      e_acute @ ''crevisse'', ''crevette rose'',
      ''crevette grise'', ''olive'', ''roquette'', ''basilic'', ''champignon'']"

definition products :: "extern \<Rightarrow> Product list \<times> extern" where
  "products e = yield_each FakeProduct product_names e"

text \<open>OC Pizza has currently 5 stores.\<close>

definition pizzeria_names :: "string list" where
  "pizzeria_names =
     [''OC Pizza #1'', ''OC Pizza bis'', ''The Best of OC Pizza'',
      ''OC Pizza Original'', ''OC Pizza'' @ [CHR 0x27] @ ''s'']"

text \<open>\<^verbatim>\<open>address_ids += [None] * 5\<close> extends the caller's list in place.\<close>

definition pizzerias ::
  "int option list \<Rightarrow> extern \<Rightarrow> Pizzeria list \<times> int option list \<times> extern" where
  "pizzerias address_ids e =
     (let (ids, e1) =
            (if length address_ids < 5 then shuffle (address_ids @ replicate 5 None) e
             else (address_ids, e));
          (ps, e2) = yield_each (\<lambda>(i, nm). FakePizzeria nm (ids ! i))
                       (enumerate 0 pizzeria_names) e1
      in (ps, ids, e2))"

definition recipe_names :: "string list" where
  "recipe_names =
     [''Spaghetti bolognaise'', ''Pizza regina'', ''Pizza calzone'',
      ''Pizza quatre saisons'', ''Pizza de la mer'', ''Ravioles au crabe'',
      ''Tagliatelle au saumon'', ''Pizza Margarita'', ''Pizza hawa'' @ i_trema @ ''enne'',
      ''P'' @ a_circ @ ''tes '' @ a_grave @ '' la carbonara'',
      ''Risotto '' @ a_grave @ '' la truffe'', ''Minestrone'',
      ''Linguine aux fruits de mer'', ''P'' @ a_circ @ ''tes au pesto'', ''Lasagne'',
      ''Lasagne v'' @ e_acute @ ''g'' @ e_acute @ ''tarienne'', ''Raviolis quatre fromages'',
      ''Escalope '' @ a_grave @ '' la milanaise'', ''Carpaccio de boeuf'',
      ''Scalopine'', ''Pizza ch'' @ e_grave @ ''vre miel'',
      ''Pizza v'' @ e_acute @ ''g'' @ e_acute @ ''tarienne'',
      ''Pizza napolitaine'']"

definition recipes :: "extern \<Rightarrow> Recipe list \<times> extern" where
  "recipes e = yield_each FakeRecipe recipe_names e"

text \<open>
  A \<^verbatim>\<open>dict\<close> is the list of its items in insertion order, each key once.
\<close>

definition catalog_items ::
  "(string \<times> int) list \<Rightarrow> extern \<Rightarrow> (error + CatalogItem list) \<times> extern" where
  "catalog_items recipe_dict e =
     try_each (\<lambda>(recipe_name, recipe_id). FakeCatalogItem recipe_name ''recipe'' recipe_id)
       recipe_dict e"

definition order_status :: "OrderStatus list" where
  "order_status =
     map (\<lambda>l. \<lparr>OrderStatus.label = l\<rparr>)
       [''Panier'', ''En cours'', ''En attente'', ''Termin'' @ e_acute @ ''e'']"

definition keywords_py :: "Keyword list" where
  "keywords_py =
     map (\<lambda>l. \<lparr>Keyword.name = l\<rparr>)
       [''pizza'', ''p'' @ a_circ @ ''tes'', ''v'' @ e_acute @ ''g'' @ e_acute @ ''tarien'',
        ''poisson'', ''viande'',
        ''champignon'', ''spaghetti'', ''macaroni'', ''tagliatelle'',
        ''fromage'', ''ch'' @ e_grave @ ''vre'', ''artichaut'', ''parmesan'',
        ''gruy'' @ e_grave @ ''re'',
        ''tomate'', ''poivron'', ''thon'', ''saumon'', ''carbonara'',
        ''moule'', ''palourde'', ''crevette'', ''langoustine'', e_acute @ ''crevisse'',
        ''porc'', ''boeuf'', ''poulet'', ''volaille'', ''oignon'', ''ail'',
        ''napolitain'', ''truffe'', ''veau'', ''pesto'', ''riz'']"

definition permissions :: "Permission list" where
  "permissions =
     map (\<lambda>l. \<lparr>Permission.label = l\<rparr>)
       [''Modifier compte'', ''Cr'' @ e_acute @ ''er compte'',
        ''Cr'' @ e_acute @ ''er commande'',
        ''Consulter commande tierse'', ''Modifier compte tiers'']"

definition roles :: "Role list" where
  "roles =
     map (\<lambda>n. \<lparr>Role.name = n\<rparr>)
       [''Client'', ''Gestionnaire'', ''Pizza'' @ i_trema @ ''olo'', ''Livreur'',
        ''Op'' @ e_acute @ ''rateur de commande'']"

section \<open>The association rows\<close>

text \<open>
  The five functions below return a \<^verbatim>\<open>dict\<close> with fixed keys, the parameters of one
  \<^verbatim>\<open>INSERT\<close> into an association table; a record with those keys stands for it.
\<close>

record HasPermissionTo =
  role_id :: int
  permission_id :: int

record ContainsItem =
  order_id :: int
  item_id :: int
  quantity :: int
  unit_price_ati :: real

record HasProductInStock =
  pizzeria_id :: int
  product_id :: int
  quantity :: int

record RequiresProduct =
  recipe_id :: int
  product_id :: int
  gram_amount :: int

record HasKeyword =
  item_id :: int
  keyword_id :: int

definition has_permission_to ::
  "int list \<Rightarrow> int list \<Rightarrow> extern \<Rightarrow> (error + HasPermissionTo) \<times> extern" where
  "has_permission_to role_pool permission_pool e =
     and_then (choice role_pool e) (\<lambda>r e.
     and_then (choice permission_pool e) (\<lambda>p e.
       (Inr \<lparr>HasPermissionTo.role_id = r, permission_id = p\<rparr>, e)))"

definition contains_item ::
  "int list \<Rightarrow> int list \<Rightarrow> extern \<Rightarrow> (error + ContainsItem) \<times> extern" where
  "contains_item order_pool item_pool e =
     and_then (choice order_pool e) (\<lambda>ord e.
     and_then (choice item_pool e) (\<lambda>it e.
       (let (q, e1) = randint 1 10 e; (price, e2) = uniform 5 80 e1
        in (Inr \<lparr>ContainsItem.order_id = ord, item_id = it, quantity = q,
                 unit_price_ati = price\<rparr>, e2))))"

definition has_product_in_stock ::
  "int list \<Rightarrow> int list \<Rightarrow> extern \<Rightarrow> (error + HasProductInStock) \<times> extern" where
  "has_product_in_stock pizzeria_pool product_pool e =
     and_then (choice pizzeria_pool e) (\<lambda>pz e.
     and_then (choice product_pool e) (\<lambda>pr e.
       (let (q, e1) = randint 1 100 e
        in (Inr \<lparr>HasProductInStock.pizzeria_id = pz, product_id = pr, quantity = q\<rparr>, e1))))"

definition requires_product ::
  "int list \<Rightarrow> int list \<Rightarrow> extern \<Rightarrow> (error + RequiresProduct) \<times> extern" where
  "requires_product recipe_pool product_pool e =
     and_then (choice recipe_pool e) (\<lambda>rc e.
     and_then (choice product_pool e) (\<lambda>pr e.
       (let (g, e1) = randint 1 1000 e
        in (Inr \<lparr>RequiresProduct.recipe_id = rc, product_id = pr, gram_amount = g\<rparr>, e1))))"

definition has_keyword ::
  "int list \<Rightarrow> int list \<Rightarrow> extern \<Rightarrow> (error + HasKeyword) \<times> extern" where
  "has_keyword item_pool keyword_pool e =
     and_then (choice item_pool e) (\<lambda>it e.
     and_then (choice keyword_pool e) (\<lambda>k e.
       (Inr \<lparr>HasKeyword.item_id = it, keyword_id = k\<rparr>, e)))"

section \<open>The persistence gateway\<close>

text \<open>
  Modelled from the spec: the database and its schema are not part of the repository. The
  stages only send the statements below through \<^verbatim>\<open>self.db.query\<close>. The store keeps, for
  each entity table, its rows with the identifier the store assigned (a serial primary key,
  here one more than the largest identifier of the table), each row holding the columns of
  the record class it was inserted from; a member row also has the column \<^verbatim>\<open>role_id\<close>,
  null when inserted. A \<^verbatim>\<open>SELECT\<close> returns the rows in the order of the table. An
  association table is unique on its composite key, the first two columns, and a second row
  with the same key is refused with an integrity error.
\<close>

datatype table =
    T_address | T_pizzeria | T_member | T_user_account | T_recipe | T_product
  | T_catalog_item | T_order_status | T_taken_order | T_bill | T_keyword | T_permission
  | T_role

datatype relation =
    R_has_permission_to | R_contains_item | R_requires_product | R_has_product_in_stock
  | R_has_keyword

datatype statement =
    INSERT table
  | SELECT_id table
  | SELECT_id_member_id
  | SELECT_name_id
  | SELECT_id_where_staff
  | UPDATE_user_account_id
  | UPDATE_role_id
  | INSERT_relation relation

record database =
  address_t :: "(int \<times> Address) list"
  pizzeria_t :: "(int \<times> Pizzeria) list"
  member_t :: "(int \<times> Member \<times> int option) list"
  user_account_t :: "(int \<times> UserAccount) list"
  recipe_t :: "(int \<times> Recipe) list"
  product_t :: "(int \<times> Product) list"
  catalog_item_t :: "(int \<times> CatalogItem) list"
  order_status_t :: "(int \<times> OrderStatus) list"
  taken_order_t :: "(int \<times> TakenOrder) list"
  bill_t :: "(int \<times> Bill) list"
  keyword_t :: "(int \<times> Keyword) list"
  permission_t :: "(int \<times> Permission) list"
  role_t :: "(int \<times> Role) list"
  has_permission_to_t :: "HasPermissionTo list"
  contains_item_t :: "ContainsItem list"
  requires_product_t :: "RequiresProduct list"
  has_product_in_stock_t :: "HasProductInStock list"
  has_keyword_t :: "HasKeyword list"

text \<open>
  \<open>issued\<close> is the list of the statements sent so far. Any statement can fail at the
  gateway (a lost connection, a constraint of the schema): \<open>faults\<close> tells, for the \<open>n\<close>-th
  statement sent, whether it fails and with what. A statement that fails changes no table.
\<close>

record gateway =
  db :: database
  issued :: "statement list"
  faults :: "nat \<Rightarrow> dberror option"

definition ids :: "(int \<times> 'r) list \<Rightarrow> int list" where
  "ids t = map fst t"

definition fresh_id :: "(int \<times> 'r) list \<Rightarrow> int" where
  "fresh_id t = fold max (ids t) 0 + 1"

definition add_row :: "'r \<Rightarrow> (int \<times> 'r) list \<Rightarrow> (int \<times> 'r) list" where
  "add_row r t = t @ [(fresh_id t, r)]"

definition execute ::
  "statement \<Rightarrow> (database \<Rightarrow> database) \<Rightarrow> gateway \<Rightarrow> (dberror \<times> gateway) + gateway" where
  "execute st change g =
     (let g' = g\<lparr>issued := issued g @ [st]\<rparr>
      in case faults g (length (issued g)) of
           Some err \<Rightarrow> Inl (err, g')
         | None \<Rightarrow> Inr (g'\<lparr>db := change (db g')\<rparr>))"

text \<open>An insertion into an association table: refused when the key is there already.\<close>

definition execute_unique ::
  "statement \<Rightarrow> bool \<Rightarrow> (database \<Rightarrow> database) \<Rightarrow> gateway \<Rightarrow> (dberror \<times> gateway) + gateway" where
  "execute_unique st key_exists change g =
     (let g' = g\<lparr>issued := issued g @ [st]\<rparr>
      in case faults g (length (issued g)) of
           Some err \<Rightarrow> Inl (err, g')
         | None \<Rightarrow>
             (if key_exists then Inl (IntegrityError UniqueViolation, g')
              else Inr (g'\<lparr>db := change (db g')\<rparr>)))"

fun insert_each ::
  "statement \<Rightarrow> ('r \<Rightarrow> database \<Rightarrow> database) \<Rightarrow> 'r list \<Rightarrow> gateway
     \<Rightarrow> (dberror \<times> gateway) + gateway" where
  "insert_each st store [] g = Inr g"
| "insert_each st store (r # rs) g =
     (case execute st (store r) g of
        Inl failure \<Rightarrow> Inl failure
      | Inr g' \<Rightarrow> insert_each st store rs g')"

section \<open>The feeder and its stages\<close>

text \<open>
  The \<^verbatim>\<open>DatabaseFeeder\<close> object: the gateway \<^verbatim>\<open>self.db\<close>, the batch size and the pools
  of identifiers, together with the process-wide state its methods run in (\<open>ext\<close>). The
  two pools that are dictionaries are \<open>user_accounts_pool\<close> (member id to account id) and
  \<open>recipes_pool\<close> (recipe name to recipe id), named \<^verbatim>\<open>user_accounts\<close> and \<^verbatim>\<open>recipes\<close> in
  the source. A pool exists in Python once its stage has assigned it; \<^verbatim>\<open>populate\<close>
  reads no pool before that, and a state of the model holds the pools assigned so far, the
  others empty.
\<close>

record feeder =
  gw :: gateway
  size_f :: int
  ext :: extern
  address_ids :: "int option list"
  pizzeria_ids :: "int list"
  member_ids :: "int list"
  user_accounts_pool :: "(int \<times> int) list"
  recipes_pool :: "(string \<times> int) list"
  product_ids :: "int list"
  catalog_item_ids :: "int list"
  order_status_ids :: "int list"
  taken_order_ids :: "int list"
  keyword_ids :: "int list"
  permission_ids :: "int list"
  role_ids :: "int list"

text \<open>
  A stage returns the feeder it leaves, or the exception it raises with the feeder as it
  was when raised: nothing is rolled back.
\<close>

type_synonym outcome = "(error \<times> feeder) + feeder"

definition then_do :: "outcome \<Rightarrow> (feeder \<Rightarrow> outcome) \<Rightarrow> outcome" where
  "then_do r k = (case r of Inl failure \<Rightarrow> Inl failure | Inr f \<Rightarrow> k f)"

definition on_gateway :: "feeder \<Rightarrow> (dberror \<times> gateway) + gateway \<Rightarrow> outcome" where
  "on_gateway f r =
     (case r of
        Inl (err, g) \<Rightarrow> Inl (DBError err, f\<lparr>gw := g\<rparr>)
      | Inr g \<Rightarrow> Inr (f\<lparr>gw := g\<rparr>))"

definition insert_all ::
  "table \<Rightarrow> ('r \<Rightarrow> database \<Rightarrow> database) \<Rightarrow> 'r list \<Rightarrow> feeder \<Rightarrow> outcome" where
  "insert_all t store rs f = on_gateway f (insert_each (INSERT t) store rs (gw f))"

definition query :: "statement \<Rightarrow> (database \<Rightarrow> database) \<Rightarrow> feeder \<Rightarrow> outcome" where
  "query st change f = on_gateway f (execute st change (gw f))"

text \<open>A dictionary comprehension: a later item with the same key replaces the value.\<close>

fun dict_set :: "'k \<Rightarrow> 'v \<Rightarrow> ('k \<times> 'v) list \<Rightarrow> ('k \<times> 'v) list" where
  "dict_set k v [] = [(k, v)]"
| "dict_set k v ((k', v') # d) = (if k = k' then (k, v) # d else (k', v') # dict_set k v d)"

definition dict_of :: "('k \<times> 'v) list \<Rightarrow> ('k \<times> 'v) list" where
  "dict_of items = foldl (\<lambda>d (k, v). dict_set k v d) [] items"

definition insert_addresses :: "feeder \<Rightarrow> outcome" where
  "insert_addresses f =
     (let (rs, e) = addresses (size_f f) (ext f)
      in then_do (insert_all T_address (\<lambda>r d. d\<lparr>address_t := add_row r (address_t d)\<rparr>) rs
                    (f\<lparr>ext := e\<rparr>)) (\<lambda>f.
         then_do (query (SELECT_id T_address) id f) (\<lambda>f.
           Inr (f\<lparr>address_ids := map Some (ids (address_t (db (gw f))))\<rparr>))))"

definition insert_pizzerias :: "feeder \<Rightarrow> outcome" where
  "insert_pizzerias f =
     (let (rs, padded, e) = pizzerias (address_ids f) (ext f)
      in then_do (insert_all T_pizzeria (\<lambda>r d. d\<lparr>pizzeria_t := add_row r (pizzeria_t d)\<rparr>) rs
                    (f\<lparr>ext := e, address_ids := padded\<rparr>)) (\<lambda>f.
         then_do (query (SELECT_id T_pizzeria) id f) (\<lambda>f.
           Inr (f\<lparr>pizzeria_ids := ids (pizzeria_t (db (gw f)))\<rparr>))))"

definition insert_members :: "feeder \<Rightarrow> outcome" where
  "insert_members f =
     (let (res, shuffled, e) = members (address_ids f) (pizzeria_ids f) (size_f f) (ext f);
          f1 = f\<lparr>ext := e, address_ids := shuffled\<rparr>
      in case res of
           Inl err \<Rightarrow> Inl (err, f1)
         | Inr rs \<Rightarrow>
             then_do (insert_all T_member
                        (\<lambda>r d. d\<lparr>member_t := add_row (r, None) (member_t d)\<rparr>) rs f1) (\<lambda>f.
             then_do (query (SELECT_id T_member) id f) (\<lambda>f.
               Inr (f\<lparr>member_ids := ids (member_t (db (gw f)))\<rparr>))))"

definition insert_user_accounts :: "feeder \<Rightarrow> outcome" where
  "insert_user_accounts f =
     (let (res, shuffled, e) = user_accounts (member_ids f) (size_f f) (ext f);
          f1 = f\<lparr>ext := e, member_ids := shuffled\<rparr>
      in case res of
           Inl err \<Rightarrow> Inl (err, f1)
         | Inr rs \<Rightarrow>
             then_do (insert_all T_user_account
                        (\<lambda>r d. d\<lparr>user_account_t := add_row r (user_account_t d)\<rparr>) rs f1) (\<lambda>f.
             then_do (query SELECT_id_member_id id f) (\<lambda>f.
               Inr (f\<lparr>user_accounts_pool :=
                        dict_of (map (\<lambda>(i, r). (UserAccount.member_id r, i))
                                   (user_account_t (db (gw f))))\<rparr>))))"

definition insert_taken_orders :: "feeder \<Rightarrow> outcome" where
  "insert_taken_orders f =
     (let (res, members', addresses', e) =
            taken_orders (member_ids f) (address_ids f) (pizzeria_ids f)
              (order_status_ids f) (size_f f) (ext f);
          f1 = f\<lparr>ext := e, member_ids := members', address_ids := addresses'\<rparr>
      in case res of
           Inl err \<Rightarrow> Inl (err, f1)
         | Inr rs \<Rightarrow>
             then_do (insert_all T_taken_order
                        (\<lambda>r d. d\<lparr>taken_order_t := add_row r (taken_order_t d)\<rparr>) rs f1) (\<lambda>f.
             then_do (query (SELECT_id T_taken_order) id f) (\<lambda>f.
               Inr (f\<lparr>taken_order_ids := ids (taken_order_t (db (gw f)))\<rparr>))))"

definition insert_bills :: "feeder \<Rightarrow> outcome" where
  "insert_bills f =
     (let (res, e) = bills (taken_order_ids f) (size_f f) (ext f);
          f1 = f\<lparr>ext := e\<rparr>
      in case res of
           Inl err \<Rightarrow> Inl (err, f1)
         | Inr rs \<Rightarrow>
             insert_all T_bill (\<lambda>r d. d\<lparr>bill_t := add_row r (bill_t d)\<rparr>) rs f1)"

definition insert_recipes :: "feeder \<Rightarrow> outcome" where
  "insert_recipes f =
     (let (rs, e) = recipes (ext f)
      in then_do (insert_all T_recipe (\<lambda>r d. d\<lparr>recipe_t := add_row r (recipe_t d)\<rparr>) rs
                    (f\<lparr>ext := e\<rparr>)) (\<lambda>f.
         then_do (query SELECT_name_id id f) (\<lambda>f.
           Inr (f\<lparr>recipes_pool :=
                    dict_of (map (\<lambda>(i, r). (Recipe.name r, i)) (recipe_t (db (gw f))))\<rparr>))))"

text \<open>
  In \<^verbatim>\<open>_insert_products\<close> the \<^verbatim>\<open>SELECT\<close> and the assignment of the pool stand inside
  the loop: they run after each insertion.
\<close>

fun insert_products_loop :: "Product list \<Rightarrow> feeder \<Rightarrow> outcome" where
  "insert_products_loop [] f = Inr f"
| "insert_products_loop (r # rs) f =
     then_do (query (INSERT T_product) (\<lambda>d. d\<lparr>product_t := add_row r (product_t d)\<rparr>) f) (\<lambda>f.
     then_do (query (SELECT_id T_product) id f) (\<lambda>f.
       insert_products_loop rs (f\<lparr>product_ids := ids (product_t (db (gw f)))\<rparr>)))"

definition insert_products :: "feeder \<Rightarrow> outcome" where
  "insert_products f =
     (let (rs, e) = products (ext f) in insert_products_loop rs (f\<lparr>ext := e\<rparr>))"

definition insert_catalog_items :: "feeder \<Rightarrow> outcome" where
  "insert_catalog_items f =
     (let (res, e) = catalog_items (recipes_pool f) (ext f);
          f1 = f\<lparr>ext := e\<rparr>
      in case res of
           Inl err \<Rightarrow> Inl (err, f1)
         | Inr rs \<Rightarrow>
             then_do (insert_all T_catalog_item
                        (\<lambda>r d. d\<lparr>catalog_item_t := add_row r (catalog_item_t d)\<rparr>) rs f1) (\<lambda>f.
             then_do (query (SELECT_id T_catalog_item) id f) (\<lambda>f.
               Inr (f\<lparr>catalog_item_ids := ids (catalog_item_t (db (gw f)))\<rparr>))))"




text \<open>
  The members with a pizzeria are read first; each then gets a role chosen in the pool
  of role identifiers. The choice is made while the parameters of the \<^verbatim>\<open>UPDATE\<close> are
  built, before the statement is sent.
\<close>

definition set_role :: "int \<Rightarrow> int \<Rightarrow> database \<Rightarrow> database" where
  "set_role memb rl d =
     d\<lparr>member_t := map (\<lambda>(i, m, r). if i = memb then (i, m, Some rl) else (i, m, r))
                      (member_t d)\<rparr>"

definition staff_ids :: "database \<Rightarrow> int list" where
  "staff_ids d =
     ids (filter (\<lambda>(i, m, r). works_at_pizzeria_id m \<noteq> None) (member_t d))"

fun update_role_loop :: "int list \<Rightarrow> feeder \<Rightarrow> outcome" where
  "update_role_loop [] f = Inr f"
| "update_role_loop (memb # rest) f =
     (case choice (role_ids f) (ext f) of
        (Inl err, e) \<Rightarrow> Inl (err, f\<lparr>ext := e\<rparr>)
      | (Inr rl, e) \<Rightarrow>
          then_do (query UPDATE_role_id (set_role memb rl) (f\<lparr>ext := e\<rparr>))
            (update_role_loop rest))"

definition update_members_role :: "feeder \<Rightarrow> outcome" where
  "update_members_role f =
     then_do (query SELECT_id_where_staff id f) (\<lambda>f.
       update_role_loop (staff_ids (db (gw f))) f)"

definition insert_order_status :: "feeder \<Rightarrow> outcome" where
  "insert_order_status f =
     then_do (insert_all T_order_status
                (\<lambda>r d. d\<lparr>order_status_t := add_row r (order_status_t d)\<rparr>) order_status f) (\<lambda>f.
     then_do (query (SELECT_id T_order_status) id f) (\<lambda>f.
       Inr (f\<lparr>order_status_ids := ids (order_status_t (db (gw f)))\<rparr>)))"

definition insert_keywords :: "feeder \<Rightarrow> outcome" where
  "insert_keywords f =
     then_do (insert_all T_keyword
                (\<lambda>r d. d\<lparr>keyword_t := add_row r (keyword_t d)\<rparr>) keywords_py f) (\<lambda>f.
     then_do (query (SELECT_id T_keyword) id f) (\<lambda>f.
       Inr (f\<lparr>keyword_ids := ids (keyword_t (db (gw f)))\<rparr>)))"

definition insert_permissions :: "feeder \<Rightarrow> outcome" where
  "insert_permissions f =
     then_do (insert_all T_permission
                (\<lambda>r d. d\<lparr>permission_t := add_row r (permission_t d)\<rparr>) permissions f) (\<lambda>f.
     then_do (query (SELECT_id T_permission) id f) (\<lambda>f.
       Inr (f\<lparr>permission_ids := ids (permission_t (db (gw f)))\<rparr>)))"

definition insert_roles :: "feeder \<Rightarrow> outcome" where
  "insert_roles f =
     then_do (insert_all T_role (\<lambda>r d. d\<lparr>role_t := add_row r (role_t d)\<rparr>) roles f) (\<lambda>f.
     then_do (query (SELECT_id T_role) id f) (\<lambda>f.
       Inr (f\<lparr>role_ids := ids (role_t (db (gw f)))\<rparr>)))"

subsection \<open>The association populator\<close>

text \<open>The composite key of each association table.\<close>

definition key_has_permission_to :: "HasPermissionTo \<Rightarrow> int \<times> int" where
  "key_has_permission_to x = (HasPermissionTo.role_id x, HasPermissionTo.permission_id x)"

definition key_contains_item :: "ContainsItem \<Rightarrow> int \<times> int" where
  "key_contains_item x = (ContainsItem.order_id x, ContainsItem.item_id x)"

definition key_has_product_in_stock :: "HasProductInStock \<Rightarrow> int \<times> int" where
  "key_has_product_in_stock x = (HasProductInStock.pizzeria_id x, HasProductInStock.product_id x)"

definition key_requires_product :: "RequiresProduct \<Rightarrow> int \<times> int" where
  "key_requires_product x = (RequiresProduct.recipe_id x, RequiresProduct.product_id x)"

definition key_has_keyword :: "HasKeyword \<Rightarrow> int \<times> int" where
  "key_has_keyword x = (HasKeyword.item_id x, HasKeyword.keyword_id x)"

definition insert_relation ::
  "relation \<Rightarrow> bool \<Rightarrow> (database \<Rightarrow> database) \<Rightarrow> feeder \<Rightarrow> outcome" where
  "insert_relation rel key_exists change f =
     on_gateway f (execute_unique (INSERT_relation rel) key_exists change (gw f))"

definition insert_has_permission_to :: "feeder \<Rightarrow> outcome" where
  "insert_has_permission_to f =
     (case has_permission_to (role_ids f) (permission_ids f) (ext f) of
        (Inl err, e) \<Rightarrow> Inl (err, f\<lparr>ext := e\<rparr>)
      | (Inr r, e) \<Rightarrow>
          insert_relation R_has_permission_to
            (key_has_permission_to r \<in> set (map key_has_permission_to (has_permission_to_t (db (gw f)))))
            (\<lambda>d. d\<lparr>has_permission_to_t := has_permission_to_t d @ [r]\<rparr>) (f\<lparr>ext := e\<rparr>))"

definition insert_contains_item :: "feeder \<Rightarrow> outcome" where
  "insert_contains_item f =
     (case contains_item (taken_order_ids f) (catalog_item_ids f) (ext f) of
        (Inl err, e) \<Rightarrow> Inl (err, f\<lparr>ext := e\<rparr>)
      | (Inr r, e) \<Rightarrow>
          insert_relation R_contains_item
            (key_contains_item r \<in> set (map key_contains_item (contains_item_t (db (gw f)))))
            (\<lambda>d. d\<lparr>contains_item_t := contains_item_t d @ [r]\<rparr>) (f\<lparr>ext := e\<rparr>))"

definition insert_has_product_in_stock :: "feeder \<Rightarrow> outcome" where
  "insert_has_product_in_stock f =
     (case has_product_in_stock (pizzeria_ids f) (product_ids f) (ext f) of
        (Inl err, e) \<Rightarrow> Inl (err, f\<lparr>ext := e\<rparr>)
      | (Inr r, e) \<Rightarrow>
          insert_relation R_has_product_in_stock
            (key_has_product_in_stock r \<in> set (map key_has_product_in_stock (has_product_in_stock_t (db (gw f)))))
            (\<lambda>d. d\<lparr>has_product_in_stock_t := has_product_in_stock_t d @ [r]\<rparr>)
            (f\<lparr>ext := e\<rparr>))"

definition insert_requires_product :: "feeder \<Rightarrow> outcome" where
  "insert_requires_product f =
     (case requires_product (map snd (recipes_pool f)) (product_ids f) (ext f) of
        (Inl err, e) \<Rightarrow> Inl (err, f\<lparr>ext := e\<rparr>)
      | (Inr r, e) \<Rightarrow>
          insert_relation R_requires_product
            (key_requires_product r \<in> set (map key_requires_product (requires_product_t (db (gw f)))))
            (\<lambda>d. d\<lparr>requires_product_t := requires_product_t d @ [r]\<rparr>) (f\<lparr>ext := e\<rparr>))"

definition insert_has_keyword :: "feeder \<Rightarrow> outcome" where
  "insert_has_keyword f =
     (case has_keyword (catalog_item_ids f) (keyword_ids f) (ext f) of
        (Inl err, e) \<Rightarrow> Inl (err, f\<lparr>ext := e\<rparr>)
      | (Inr r, e) \<Rightarrow>
          insert_relation R_has_keyword
            (key_has_keyword r \<in> set (map key_has_keyword (has_keyword_t (db (gw f)))))
            (\<lambda>d. d\<lparr>has_keyword_t := has_keyword_t d @ [r]\<rparr>) (f\<lparr>ext := e\<rparr>))"

text \<open>
  \<^verbatim>\<open>try: callback() except sqlalchemy.exc.IntegrityError: pass\<close>: an integrity error of
  any kind is dropped, the state stays as the failed call left it, and the loop goes on.
\<close>

definition attempt :: "(feeder \<Rightarrow> outcome) \<Rightarrow> feeder \<Rightarrow> outcome" where
  "attempt callback f =
     (case callback f of
        Inl (DBError (IntegrityError v), f') \<Rightarrow> Inr f'
      | Inl (err, f') \<Rightarrow> Inl (err, f')
      | Inr f' \<Rightarrow> Inr f')"

fun repeat :: "nat \<Rightarrow> (feeder \<Rightarrow> outcome) \<Rightarrow> feeder \<Rightarrow> outcome" where
  "repeat 0 step f = Inr f"
| "repeat (Suc n) step f = then_do (step f) (repeat n step)"

definition callbacks :: "(feeder \<Rightarrow> outcome) list" where
  "callbacks =
     [insert_has_permission_to, insert_contains_item, insert_requires_product,
      insert_has_product_in_stock, insert_has_keyword]"

fun for_callbacks :: "(feeder \<Rightarrow> outcome) list \<Rightarrow> feeder \<Rightarrow> outcome" where
  "for_callbacks [] f = Inr f"
| "for_callbacks (callback # rest) f =
     then_do (repeat (nat (size_f f)) (attempt callback) f) (for_callbacks rest)"

definition insert_relations_many_to_many :: "feeder \<Rightarrow> outcome" where
  "insert_relations_many_to_many f = for_callbacks callbacks f"

subsection \<open>The whole pass\<close>



section \<open>Notions used in the statements\<close>

text \<open>The number of rows of an association table.\<close>

definition row_count :: "relation \<Rightarrow> database \<Rightarrow> nat" where
  "row_count rel d =
     (case rel of
        R_has_permission_to \<Rightarrow> length (has_permission_to_t d)
      | R_contains_item \<Rightarrow> length (contains_item_t d)
      | R_requires_product \<Rightarrow> length (requires_product_t d)
      | R_has_product_in_stock \<Rightarrow> length (has_product_in_stock_t d)
      | R_has_keyword \<Rightarrow> length (has_keyword_t d))"

text \<open>
  A gateway whose failures are integrity errors only, and a feeder whose pools, as the
  association populator reads them, are not empty.
\<close>

definition only_integrity_faults :: "gateway \<Rightarrow> bool" where
  "only_integrity_faults g \<longleftrightarrow> (\<forall>n e. faults g n = Some e \<longrightarrow> (\<exists>v. e = IntegrityError v))"

definition pools_filled :: "feeder \<Rightarrow> bool" where
  "pools_filled f \<longleftrightarrow>
     role_ids f \<noteq> [] \<and> permission_ids f \<noteq> [] \<and> taken_order_ids f \<noteq> []
     \<and> catalog_item_ids f \<noteq> [] \<and> recipes_pool f \<noteq> [] \<and> product_ids f \<noteq> []
     \<and> pizzeria_ids f \<noteq> [] \<and> keyword_ids f \<noteq> []"

text \<open>
  The role \<^verbatim>\<open>random.choice\<close> takes in the pool at its call of rank \<open>k\<close>, counted from the
  state the feeder is in: the element at the index that the outcome of that rank gives.
\<close>

definition drawn_role :: "feeder \<Rightarrow> nat \<Rightarrow> int" where
  "drawn_role f k =
     role_ids f ! (draws (ext f) (drawn (ext f) + k) mod length (role_ids f))"




text \<open>
  What the stages of the pass leave for the stages that follow, on a gateway that never
  fails: after \<open>k\<close> stages, the pools filled so far are long enough, or not empty, as the
  later generators need them.
\<close>

definition prepared :: "nat \<Rightarrow> feeder \<Rightarrow> bool" where
  "prepared k f \<longleftrightarrow>
     faults (gw f) = (\<lambda>n. None)
     \<and> (1 \<le> k \<longrightarrow> \<not> int (length (address_ids f)) < size_f f)
     \<and> (2 \<le> k \<longrightarrow> pizzeria_ids f \<noteq> [])
     \<and> (3 \<le> k \<longrightarrow> \<not> int (length (member_ids f)) < size_f f)
     \<and> (6 \<le> k \<longrightarrow> recipes_pool f \<noteq> [])
     \<and> (7 \<le> k \<longrightarrow> product_ids f \<noteq> [])
     \<and> (8 \<le> k \<longrightarrow> catalog_item_ids f \<noteq> [])
     \<and> (9 \<le> k \<longrightarrow> order_status_ids f \<noteq> [])
     \<and> (10 \<le> k \<longrightarrow> \<not> int (length (taken_order_ids f)) < size_f f)
     \<and> (12 \<le> k \<longrightarrow> keyword_ids f \<noteq> [])
     \<and> (13 \<le> k \<longrightarrow> permission_ids f \<noteq> [])
     \<and> (14 \<le> k \<longrightarrow> role_ids f \<noteq> [])"

section \<open>Concrete inputs\<close>

text \<open>A random source, a provider and a title function to run the definitions on.\<close>

definition ext0 :: extern where
  "ext0 = \<lparr>draws = Suc, drawn = 0,
           texts = (\<lambda>i. if even i then ''12, rue de la Paix'' else ''75 001''),
           text_lists = (\<lambda>i. [''texte'']), amounts = (\<lambda>i. 12.5), served = 0,
           title = (\<lambda>s. s), printed = []\<rparr>"

definition ext1 :: extern where
  "ext1 = \<lparr>draws = Suc, drawn = 0,
           texts = (\<lambda>i. if i = 0 then ''rue Victor Hugo'' else if i = 1 then ''48''
                         else ''69 002''),
           text_lists = (\<lambda>i. [''texte'']), amounts = (\<lambda>i. 12.5), served = 0,
           title = (\<lambda>s. s), printed = []\<rparr>"

text \<open>
  An empty database behind a gateway that never fails, and the feeder as
  \<^verbatim>\<open>DatabaseFeeder.__init__\<close> leaves it.
\<close>

definition empty_database :: database where
  "empty_database =
     \<lparr>address_t = [], pizzeria_t = [], member_t = [], user_account_t = [], recipe_t = [],
      product_t = [], catalog_item_t = [], order_status_t = [], taken_order_t = [],
      bill_t = [], keyword_t = [], permission_t = [], role_t = [],
      has_permission_to_t = [], contains_item_t = [], requires_product_t = [],
      has_product_in_stock_t = [], has_keyword_t = []\<rparr>"

definition gateway0 :: gateway where
  "gateway0 = \<lparr>db = empty_database, issued = [], faults = (\<lambda>n. None)\<rparr>"

definition DatabaseFeeder :: "gateway \<Rightarrow> int \<Rightarrow> extern \<Rightarrow> feeder" where
  "DatabaseFeeder g sz e =
     \<lparr>gw = g, size_f = sz, ext = e, address_ids = [], pizzeria_ids = [], member_ids = [],
      user_accounts_pool = [], recipes_pool = [], product_ids = [], catalog_item_ids = [],
      order_status_ids = [], taken_order_ids = [], keyword_ids = [], permission_ids = [],
      role_ids = []\<rparr>"

text \<open>Twenty rows asked for with ten identifiers in each pool.\<close>

definition feeder_short :: feeder where
  "feeder_short =
     (DatabaseFeeder gateway0 20 ext0)
       \<lparr>address_ids := map Some [1, 2, 3, 4, 5, 6, 7, 8, 9, 10],
        member_ids := [1, 2, 3, 4, 5, 6, 7, 8, 9, 10],
        taken_order_ids := [1, 2, 3, 4, 5, 6, 7, 8, 9, 10]\<rparr>"

text \<open>
  A second run: the address table already holds a row, with identifier 1, and every pool
  holds one identifier of a first run. One row is asked for.
\<close>

definition feeder_rerun :: feeder where
  "feeder_rerun =
     (DatabaseFeeder
        (gateway0\<lparr>db := empty_database\<lparr>address_t :=
            [(1, \<lparr>street_name = ''rue de la Paix'', home_number = ''12'',
                  zip_code = ''75001'', country = Some ''France''\<rparr>)]\<rparr>\<rparr>)
        1 ext0)
       \<lparr>address_ids := [Some 1], pizzeria_ids := [1], member_ids := [1],
        recipes_pool := [(''Lasagne'', 1)], order_status_ids := [1],
        taken_order_ids := [1]\<rparr>"

text \<open>Two members, the first one on the staff of a pizzeria, and five roles.\<close>

definition feeder_staff :: feeder where
  "feeder_staff =
     (DatabaseFeeder
        (gateway0\<lparr>db := empty_database\<lparr>member_t :=
            [(1, \<lparr>Member.name = ''Martin'', firstname = ''Anne'',
                  works_at_pizzeria_id = Some 2, user_account_id = None,
                  address_id = Some 1\<rparr>, None),
             (2, \<lparr>Member.name = ''Petit'', firstname = ''Luc'',
                  works_at_pizzeria_id = None, user_account_id = None,
                  address_id = Some 2\<rparr>, None)]\<rparr>\<rparr>)
        2 ext0)
       \<lparr>role_ids := [1, 2, 3, 4, 5]\<rparr>"

text \<open>A first run on an empty database, one row asked for.\<close>

definition feeder_one :: feeder where
  "feeder_one = DatabaseFeeder gateway0 1 ext0"

text \<open>
  One row asked for, one identifier in each pool, and a gateway that fails on its first
  statement: with a foreign-key violation, or with an error that is not an integrity
  error.
\<close>

definition feeder_links :: "(nat \<Rightarrow> dberror option) \<Rightarrow> feeder" where
  "feeder_links fl =
     (DatabaseFeeder (gateway0\<lparr>faults := fl\<rparr>) 1 ext0)
       \<lparr>pizzeria_ids := [1], recipes_pool := [(''Lasagne'', 1)], product_ids := [1],
        catalog_item_ids := [1], taken_order_ids := [1], keyword_ids := [1],
        permission_ids := [1], role_ids := [1]\<rparr>"

definition feeder_fk :: feeder where
  "feeder_fk =
     feeder_links (\<lambda>n. if n = 0 then Some (IntegrityError ForeignKeyViolation) else None)"

definition feeder_down :: feeder where
  "feeder_down = feeder_links (\<lambda>n. if n = 0 then Some OperationalError else None)"

section \<open>Properties of the library model\<close>

lemma mset_permute: "mset (permute d xs) = mset xs"
proof (induction xs arbitrary: d)
  case Nil
  show ?case by simp
next
  case (Cons x xs)
  have "mset (take k ys) + mset (drop k ys) = mset ys" for k and ys :: "'a list"
    by (metis append_take_drop_id mset_append)
  with Cons show ?case by (simp add: Let_def)
qed

lemma length_permute: "length (permute d xs) = length xs"
  using mset_permute [of d xs] by (metis size_mset)

lemma set_permute: "set (permute d xs) = set xs"
  using mset_permute [of d xs] by (metis set_mset_mset)

lemma shuffle_fst: "fst (shuffle xs e) = permute (draws e (drawn e)) xs"
  by (simp add: shuffle_def next_draw_def)

lemma length_yield_each: "length (fst (yield_each f xs e)) = length xs"
  by (induction xs arbitrary: e) (simp_all add: split_beta Let_def)

lemma map_yield_each:
  assumes "\<And>x e. g (fst (f x e)) = h x"
  shows "map g (fst (yield_each f xs e)) = map h xs"
  using assms by (induction xs arbitrary: e) (simp_all add: split_beta Let_def)

lemma all_yield_each:
  assumes "\<And>x e. P (fst (f x e))"
  shows "\<forall>y \<in> set (fst (yield_each f xs e)). P y"
  using assms by (induction xs arbitrary: e) (simp_all add: split_beta Let_def)

section \<open>The catalog item and its parent\<close>

text \<open>
  Claim C7. Constructing a catalog item raises the unknown-parent error (the
  \<^verbatim>\<open>AttributeError\<close> of the last branch) exactly when the parent kind is neither
  \<^verbatim>\<open>'recipe'\<close> nor \<^verbatim>\<open>'product'\<close>, it raises nothing else, and every item constructed
  has exactly one of \<open>recipe_id\<close> and \<open>product_id\<close> set: never both, never neither.
\<close>

theorem FakeCatalogItem_one_parent:
  "((\<exists>m. fst (FakeCatalogItem nm parent pid e) = Inl (AttributeError m))
      \<longleftrightarrow> parent \<noteq> ''recipe'' \<and> parent \<noteq> ''product'')
   \<and> ((\<exists>err. fst (FakeCatalogItem nm parent pid e) = Inl err)
      \<longleftrightarrow> parent \<noteq> ''recipe'' \<and> parent \<noteq> ''product'')
   \<and> (\<forall>item. fst (FakeCatalogItem nm parent pid e) = Inr item \<longrightarrow>
        (CatalogItem.recipe_id item = None) \<noteq> (CatalogItem.product_id item = None))"
  by (simp add: FakeCatalogItem_def split_beta Let_def)

theorem FakeCatalogItem_one_parent_witness:
  "(\<exists>item. fst (FakeCatalogItem ''Lasagne'' ''recipe'' 7 ext0) = Inr item
      \<and> CatalogItem.recipe_id item = Some 7 \<and> CatalogItem.product_id item = None
      \<and> (CatalogItem.recipe_id item = None) \<noteq> (CatalogItem.product_id item = None))
   \<and> (\<exists>item. fst (FakeCatalogItem ''olive'' ''product'' 3 ext0) = Inr item
      \<and> CatalogItem.recipe_id item = None \<and> CatalogItem.product_id item = Some 3)
   \<and> (\<exists>m. fst (FakeCatalogItem ''Lasagne'' ''pizza'' 7 ext0) = Inl (AttributeError m))"
  using FakeCatalogItem_one_parent [of "''Lasagne''" "''recipe''" 7 ext0]
    FakeCatalogItem_one_parent [of "''Lasagne''" "''pizza''" 7 ext0]
  by (simp add: FakeCatalogItem_def split_beta Let_def)

section \<open>Addresses\<close>

lemma FakeAddress_country: "Address.country (fst (FakeAddress e)) = Some ''France''"
  by (simp add: FakeAddress_def split_beta Let_def)

lemma FakeAddress_zip_code: "CHR '' '' \<notin> set (Address.zip_code (fst (FakeAddress e)))"
  by (simp add: FakeAddress_def split_beta Let_def remove_spaces_def)

lemma FakeAddress_fallback:
  "match_street (first_line (texts e (served e))) = None \<Longrightarrow>
     Address.home_number (fst (FakeAddress e)) = texts e (Suc (served e))"
  by (simp add: FakeAddress_def split_beta Let_def fake_text_def)

lemma FakeAddress_match:
  "match_street (first_line (texts e (served e))) = Some (number, rest) \<Longrightarrow>
     Address.home_number (fst (FakeAddress e)) = number"
  by (simp add: FakeAddress_def split_beta Let_def fake_text_def)

text \<open>
  Claim C9. Asked for \<open>n\<close> addresses, the generator yields exactly \<open>n\<close> records (none
  when \<open>n\<close> is negative, \<^verbatim>\<open>range\<close> being empty then); each has the country
  \<^verbatim>\<open>'France'\<close> and a postal code without a space. The constructor has no failing
  branch: when the first line of the provider's address does not match the pattern, the
  house number is the next value asked from the provider, the building number.
\<close>

theorem addresses_count_and_format:
  "length (fst (addresses n e)) = nat n
   \<and> (\<forall>a \<in> set (fst (addresses n e)).
         Address.country a = Some ''France'' \<and> CHR '' '' \<notin> set (Address.zip_code a))
   \<and> (match_street (first_line (texts e' (served e'))) = None \<longrightarrow>
         Address.home_number (fst (FakeAddress e')) = texts e' (Suc (served e')))"
proof (intro conjI)
  show "length (fst (addresses n e)) = nat n"
    by (simp add: addresses_def py_range_def length_yield_each)
  show "\<forall>a \<in> set (fst (addresses n e)).
         Address.country a = Some ''France'' \<and> CHR '' '' \<notin> set (Address.zip_code a)"
    unfolding addresses_def
    by (rule all_yield_each) (simp add: FakeAddress_country FakeAddress_zip_code)
  show "match_street (first_line (texts e' (served e'))) = None \<longrightarrow>
         Address.home_number (fst (FakeAddress e')) = texts e' (Suc (served e'))"
    by (simp add: FakeAddress_fallback)
qed

theorem addresses_count_and_format_witness:
  "length (fst (addresses 2 ext0)) = 2
   \<and> Address.country (hd (fst (addresses 2 ext0))) = Some ''France''
   \<and> Address.zip_code (hd (fst (addresses 2 ext0))) = ''75001''
   \<and> match_street (first_line (texts ext1 (served ext1))) = None
   \<and> Address.home_number (fst (FakeAddress ext1)) = ''48''"
proof -
  have first: "Address.country (hd (fst (addresses 2 ext0))) = Some ''France''
     \<and> Address.zip_code (hd (fst (addresses 2 ext0))) = ''75001''"
    by code_simp
  have no_match: "match_street (first_line (texts ext1 (served ext1))) = None"
    by code_simp
  have number: "texts ext1 (Suc (served ext1)) = ''48''"
    by code_simp
  show ?thesis
    using addresses_count_and_format [of 2 ext0 ext1] first no_match number by simp
qed

section \<open>Pizzerias\<close>

lemma yield_FakePizzeria_address_id:
  "map Pizzeria.address_id (fst (yield_each (\<lambda>(i, nm). FakePizzeria nm (l ! i)) xs e)) =
     map (\<lambda>(i, nm). l ! i) xs"
  by (rule map_yield_each) (simp add: FakePizzeria_def split_beta Let_def)

lemma yield_FakePizzeria_name:
  "map Pizzeria.name (fst (yield_each (\<lambda>(i, nm). FakePizzeria nm (l ! i)) xs e)) =
     map snd xs"
  by (rule map_yield_each) (simp add: FakePizzeria_def split_beta Let_def)

lemma pizzerias_length_ids: "5 \<le> length (fst (snd (pizzerias a e)))"
  by (simp add: pizzerias_def split_beta Let_def shuffle_fst length_permute)

lemma upt_5: "[0..<5] = [0, 1, 2, 3, 4]"
  by code_simp

lemma enumerate_pizzeria_names:
  "map (\<lambda>(i, nm). l ! i) (enumerate 0 pizzeria_names) = map ((!) l) [0..<5]"
  by (simp add: enumerate_eq_zip pizzeria_names_def upt_5 eval_nat_numeral)

lemma pizzerias_address_ids:
  "map Pizzeria.address_id (fst (pizzerias a e)) = take 5 (fst (snd (pizzerias a e)))"
proof -
  have "map Pizzeria.address_id (fst (pizzerias a e)) =
        map ((!) (fst (snd (pizzerias a e)))) [0..<5]"
    by (simp add: pizzerias_def split_beta Let_def yield_FakePizzeria_address_id
        enumerate_pizzeria_names)
  also have "\<dots> = take 5 (fst (snd (pizzerias a e)))"
    using pizzerias_length_ids [of a e] by (metis add_0 map_nth take_map take_upt)
  finally show ?thesis .
qed

lemma pizzerias_names: "map Pizzeria.name (fst (pizzerias a e)) = pizzeria_names"
  by (simp add: pizzerias_def split_beta Let_def yield_FakePizzeria_name enumerate_eq_zip)

lemma pizzerias_ids:
  "fst (snd (pizzerias a e)) =
     (if length a < 5 then permute (draws e (drawn e)) (a @ replicate 5 None) else a)"
  by (simp add: pizzerias_def split_beta Let_def shuffle_fst)

lemma filter_take_le: "length (filter P (take k xs)) \<le> length (filter P xs)"
proof -
  have "length (filter P xs) = length (filter P (take k xs)) + length (filter P (drop k xs))"
    by (metis append_take_drop_id filter_append length_append)
  then show ?thesis by simp
qed

lemma length_filter_mset: "length (filter P xs) = size (filter_mset P (mset xs))"
  by (metis mset_filter size_mset)

lemma pizzerias_nulls:
  "5 - length a \<le> length (filter (\<lambda>p. Pizzeria.address_id p = None) (fst (pizzerias a e)))"
proof (cases "length a < 5")
  case False
  then show ?thesis by simp
next
  case True
  let ?ids = "fst (snd (pizzerias a e))"
  let ?sel = "take 5 ?ids"
  have ids: "mset ?ids = mset (a @ replicate 5 None)"
    using True by (simp add: pizzerias_ids mset_permute)
  have "length (filter (\<lambda>x. x \<noteq> None) ?sel) \<le> length (filter (\<lambda>x. x \<noteq> None) ?ids)"
    by (rule filter_take_le)
  also have "\<dots> = length (filter (\<lambda>x. x \<noteq> None) (a @ replicate 5 None))"
    by (simp only: length_filter_mset ids)
  also have "\<dots> \<le> length a"
    by simp
  finally have some: "length (filter (\<lambda>x. x \<noteq> None) ?sel) \<le> length a" .
  have "length ?sel = 5"
    using pizzerias_length_ids [of a e] by simp
  moreover have "length ?sel =
      length (filter (\<lambda>x. x = None) ?sel) + length (filter (\<lambda>x. x \<noteq> None) ?sel)"
    using sum_length_filter_compl [of "\<lambda>x. x = None" ?sel] by simp
  ultimately have "5 - length a \<le> length (filter (\<lambda>x. x = None) ?sel)"
    using some by linarith
  moreover have "length (filter (\<lambda>p. Pizzeria.address_id p = None) (fst (pizzerias a e))) =
      length (filter (\<lambda>x. x = None) (map Pizzeria.address_id (fst (pizzerias a e))))"
    by (simp add: filter_map comp_def)
  ultimately show ?thesis by (simp add: pizzerias_address_ids)
qed

lemma pizzerias_from_pool:
  "\<forall>p \<in> set (fst (pizzerias a e)).
      Pizzeria.address_id p = None \<or> Pizzeria.address_id p \<in> set a"
proof
  fix p assume "p \<in> set (fst (pizzerias a e))"
  then have "Pizzeria.address_id p \<in> set (map Pizzeria.address_id (fst (pizzerias a e)))"
    by simp
  then have "Pizzeria.address_id p \<in> set (fst (snd (pizzerias a e)))"
    unfolding pizzerias_address_ids by (rule in_set_takeD)
  then show "Pizzeria.address_id p = None \<or> Pizzeria.address_id p \<in> set a"
    by (auto simp add: pizzerias_ids set_permute split: if_splits)
qed

text \<open>
  Claim C10, as amended. Whatever the list of address identifiers, also a short or an
  empty one, the generator yields five pizzerias, one for each store name in order, and
  it never fails. The five stores take the first five entries of the list when it holds
  five or more; of a shorter list they take the first five entries of the list extended
  by five nulls and shuffled. So each store gets a null address or an identifier of the
  list, and at least as many stores get a null address as identifiers are missing to
  reach five; more of them may, an identifier of the list being left unused.
\<close>

theorem pizzerias_five_stores:
  "length (fst (pizzerias a e)) = 5
   \<and> map Pizzeria.name (fst (pizzerias a e)) = pizzeria_names
   \<and> map Pizzeria.address_id (fst (pizzerias a e)) =
       take 5 (if length a < 5 then permute (draws e (drawn e)) (a @ replicate 5 None) else a)
   \<and> 5 - length a \<le> length (filter (\<lambda>p. Pizzeria.address_id p = None) (fst (pizzerias a e)))
   \<and> (\<forall>p \<in> set (fst (pizzerias a e)).
         Pizzeria.address_id p = None \<or> Pizzeria.address_id p \<in> set a)"
proof (intro conjI)
  have "length (map Pizzeria.name (fst (pizzerias a e))) = length pizzeria_names"
    by (simp only: pizzerias_names)
  then show "length (fst (pizzerias a e)) = 5"
    by (simp add: pizzeria_names_def)
  show "map Pizzeria.address_id (fst (pizzerias a e)) =
       take 5 (if length a < 5 then permute (draws e (drawn e)) (a @ replicate 5 None) else a)"
    by (simp only: pizzerias_address_ids pizzerias_ids)
qed (rule pizzerias_names pizzerias_nulls pizzerias_from_pool)+

theorem pizzerias_five_stores_witness:
  "length (fst (pizzerias [Some 4] ext0)) = 5
   \<and> map Pizzeria.address_id (fst (pizzerias [Some 4] ext0)) = [None, Some 4, None, None, None]
   \<and> 5 - length [Some (4::int)] \<le>
       length (filter (\<lambda>p. Pizzeria.address_id p = None) (fst (pizzerias [Some 4] ext0)))
   \<and> length (fst (pizzerias [] ext0)) = 5
   \<and> map Pizzeria.address_id (fst (pizzerias [] ext0)) = [None, None, None, None, None]
   \<and> map Pizzeria.address_id (fst (pizzerias (map Some [1, 2, 3, 4, 5, 6]) ext0))
       = map Some [1, 2, 3, 4, 5]"
proof -
  have a1: "take 5 (if length [Some (4::int)] < 5
                    then permute (draws ext0 (drawn ext0)) ([Some (4::int)] @ replicate 5 None)
                    else [Some 4]) = [None, Some 4, None, None, None]"
    by code_simp
  have a0: "take 5 (if length ([] :: int option list) < 5
                    then permute (draws ext0 (drawn ext0))
                           (([] :: int option list) @ replicate 5 None)
                    else []) = [None, None, None, None, None]"
    by code_simp
  have a6: "take 5 (if length (map Some [1, 2, 3, 4, 5, 6 :: int]) < 5
                    then permute (draws ext0 (drawn ext0))
                           (map Some [1, 2, 3, 4, 5, 6 :: int] @ replicate 5 None)
                    else map Some [1, 2, 3, 4, 5, 6]) = map Some [1, 2, 3, 4, 5]"
    by code_simp
  show ?thesis
    using pizzerias_five_stores [of "[Some 4]" ext0] pizzerias_five_stores [of "[]" ext0]
      pizzerias_five_stores [of "map Some [1, 2, 3, 4, 5, 6]" ext0] a1 a0 a6
    by simp
qed

text \<open>
  Claim C10 as stated fails where it gives the null addresses to the surplus stores
  only: with one address identifier in the list and the outcome 5 of the random source,
  the identifier falls at the sixth place of the shuffled list, all five stores get a
  null address and the identifier is used by none.
\<close>

theorem an_available_address_is_left_unused:
  "length [Some (4::int)] = 1
   \<and> map Pizzeria.address_id (fst (pizzerias [Some 4] (ext0\<lparr>drawn := 4\<rparr>)))
       = [None, None, None, None, None]
   \<and> length (filter (\<lambda>p. Pizzeria.address_id p = None)
               (fst (pizzerias [Some 4] (ext0\<lparr>drawn := 4\<rparr>)))) = 5"
  by code_simp

section \<open>What the generators do to the lists they are given\<close>








section \<open>Pools that are too small\<close>

text \<open>
  Claim C4. When the pool a generator draws from is shorter than the size asked for
  (address identifiers for members, member identifiers for user accounts, member or
  address identifiers for taken orders, taken-order identifiers for bills), the stage
  raises the \<^verbatim>\<open>ValueError\<close> of the generator and leaves the feeder as it found it: the
  tables are the same and no statement has been sent. The bills generator prints its
  list before raising, which is the only change.
\<close>

theorem too_small_pool_raises_before_inserting:
  "(int (length (address_ids f)) < size_f f \<longrightarrow>
      insert_members f = Inl (ValueError ''Not enough address_ids'', f))
   \<and> (int (length (member_ids f)) < size_f f \<longrightarrow>
      insert_user_accounts f = Inl (ValueError ''Not enough member_ids'', f))
   \<and> (int (length (member_ids f)) < size_f f \<longrightarrow>
      insert_taken_orders f = Inl (ValueError ''Not enough member_ids'', f))
   \<and> (\<not> int (length (member_ids f)) < size_f f \<and> int (length (address_ids f)) < size_f f \<longrightarrow>
      insert_taken_orders f = Inl (ValueError ''Not enough address_ids'', f))
   \<and> (int (length (taken_order_ids f)) < size_f f \<longrightarrow>
      insert_bills f = Inl (ValueError ''Not enough taken_order_ids'',
                            f\<lparr>ext := print (IdList (taken_order_ids f)) (ext f)\<rparr>))"
  by (simp add: insert_members_def members_def insert_user_accounts_def user_accounts_def
      insert_taken_orders_def taken_orders_def insert_bills_def bills_def)

theorem too_small_pool_raises_before_inserting_witness:
  "int (length (member_ids feeder_short)) < size_f feeder_short
   \<and> insert_user_accounts feeder_short =
         Inl (ValueError ''Not enough member_ids'', feeder_short)
   \<and> insert_taken_orders feeder_short =
         Inl (ValueError ''Not enough member_ids'', feeder_short)
   \<and> int (length (address_ids feeder_short)) < size_f feeder_short
   \<and> insert_members feeder_short = Inl (ValueError ''Not enough address_ids'', feeder_short)
   \<and> int (length (taken_order_ids feeder_short)) < size_f feeder_short
   \<and> (\<exists>f'. insert_bills feeder_short = Inl (ValueError ''Not enough taken_order_ids'', f')
           \<and> gw f' = gw feeder_short)
   \<and> issued (gw feeder_short) = []"
proof -
  have short: "int (length (member_ids feeder_short)) < size_f feeder_short
     \<and> int (length (address_ids feeder_short)) < size_f feeder_short
     \<and> int (length (taken_order_ids feeder_short)) < size_f feeder_short
     \<and> issued (gw feeder_short) = []"
    by (simp add: feeder_short_def DatabaseFeeder_def gateway0_def)
  show ?thesis
    using too_small_pool_raises_before_inserting [of feeder_short] short by simp
qed

section \<open>What a stage leaves behind\<close>

text \<open>
  The lemmas of this section give, for a stage that returns, the feeder it returns: the
  statements sent, the rows added and the pool read back.
\<close>

lemma then_do_Inr: "then_do r k = Inr f' \<longleftrightarrow> (\<exists>f1. r = Inr f1 \<and> k f1 = Inr f')"
  by (cases r) (simp_all add: then_do_def)

lemma execute_Inr:
  "execute st change g = Inr g' \<longleftrightarrow>
     faults g (length (issued g)) = None
     \<and> g' = g\<lparr>issued := issued g @ [st], db := change (db g)\<rparr>"
  by (auto simp add: execute_def Let_def split: option.splits)

lemma execute_Inl:
  "execute st change g = Inl (err, g') \<longleftrightarrow>
     faults g (length (issued g)) = Some err \<and> g' = g\<lparr>issued := issued g @ [st]\<rparr>"
  by (auto simp add: execute_def Let_def split: option.splits)

lemma insert_each_Inr:
  "insert_each st store rs g = Inr g' \<Longrightarrow>
     g' = g\<lparr>issued := issued g @ replicate (length rs) st, db := fold store rs (db g)\<rparr>"
proof (induction rs arbitrary: g)
  case Nil
  then show ?case by simp
next
  case (Cons r rs)
  from Cons.prems obtain g1 where g1: "execute st (store r) g = Inr g1"
    and rest: "insert_each st store rs g1 = Inr g'"
    by (auto split: sum.splits)
  from g1 have "g1 = g\<lparr>issued := issued g @ [st], db := store r (db g)\<rparr>"
    by (simp add: execute_Inr)
  with Cons.IH [OF rest] show ?case
    by (simp add: replicate_append_same)
qed

lemma insert_each_no_faults:
  "faults g = (\<lambda>n. None) \<Longrightarrow>
     insert_each st store rs g =
       Inr (g\<lparr>issued := issued g @ replicate (length rs) st, db := fold store rs (db g)\<rparr>)"
proof (induction rs arbitrary: g)
  case Nil
  then show ?case by simp
next
  case (Cons r rs)
  let ?g1 = "g\<lparr>issued := issued g @ [st], db := store r (db g)\<rparr>"
  have "execute st (store r) g = Inr ?g1"
    using Cons.prems by (simp add: execute_Inr)
  moreover have "faults ?g1 = (\<lambda>n. None)"
    using Cons.prems by simp
  ultimately show ?case
    using Cons.IH [of ?g1] by (simp add: replicate_append_same)
qed

lemma fresh_id_add_row: "fresh_id (add_row r t) = fresh_id t + 1"
proof -
  have "fold max (xs @ [y]) (0::int) = max y (fold max xs 0)" for xs y
    by simp
  then show ?thesis
    by (simp add: fresh_id_def add_row_def ids_def)
qed

lemma fold_add_row:
  "fold add_row rs t = t @ zip (map (\<lambda>k. fresh_id t + int k) [0..<length rs]) rs"
proof (induction rs arbitrary: t)
  case Nil
  show ?case by simp
next
  case (Cons r rs)
  have "map (\<lambda>k. fresh_id t + int k) [0..<Suc (length rs)] =
        fresh_id t # map (\<lambda>k. fresh_id t + 1 + int k) [0..<length rs]"
    by (simp add: upt_conv_Cons map_Suc_upt [symmetric] del: upt_Suc) 
  then show ?case
    using Cons.IH [of "add_row r t"]
    by (simp add: fresh_id_add_row) (simp add: add_row_def)
qed

lemma fold_store_get:
  assumes "\<And>r d. get (store r d) = add_row (h r) (get d)"
  shows "get (fold store rs d) = fold add_row (map h rs) (get d)"
  using assms by (induction rs arbitrary: d) simp_all

lemma fold_store_frame:
  assumes "\<And>r d. other (store r d) = other d"
  shows "other (fold store rs d) = other d"
  using assms by (induction rs arbitrary: d) simp_all

lemma insert_all_Inr:
  "insert_all t store rs f = Inr f' \<Longrightarrow>
     f' = f\<lparr>gw := (gw f)\<lparr>issued := issued (gw f) @ replicate (length rs) (INSERT t),
                         db := fold store rs (db (gw f))\<rparr>\<rparr>"
  by (auto simp add: insert_all_def on_gateway_def split: sum.splits dest: insert_each_Inr)

lemma query_Inr:
  "query st change f = Inr f' \<longleftrightarrow>
     faults (gw f) (length (issued (gw f))) = None
     \<and> f' = f\<lparr>gw := (gw f)\<lparr>issued := issued (gw f) @ [st], db := change (db (gw f))\<rparr>\<rparr>"
  by (auto simp add: query_def on_gateway_def execute_def Let_def split: option.splits)

lemma fold_store_address:
  "fold (\<lambda>r d. d\<lparr>address_t := add_row r (address_t d)\<rparr>) rs d =
     d\<lparr>address_t := fold add_row rs (address_t d)\<rparr>"
  by (induction rs arbitrary: d) simp_all

lemma fold_store_pizzeria:
  "fold (\<lambda>r d. d\<lparr>pizzeria_t := add_row r (pizzeria_t d)\<rparr>) rs d =
     d\<lparr>pizzeria_t := fold add_row rs (pizzeria_t d)\<rparr>"
  by (induction rs arbitrary: d) simp_all

lemma fold_store_user_account:
  "fold (\<lambda>r d. d\<lparr>user_account_t := add_row r (user_account_t d)\<rparr>) rs d =
     d\<lparr>user_account_t := fold add_row rs (user_account_t d)\<rparr>"
  by (induction rs arbitrary: d) simp_all

lemma fold_store_recipe:
  "fold (\<lambda>r d. d\<lparr>recipe_t := add_row r (recipe_t d)\<rparr>) rs d =
     d\<lparr>recipe_t := fold add_row rs (recipe_t d)\<rparr>"
  by (induction rs arbitrary: d) simp_all

lemma fold_store_product:
  "fold (\<lambda>r d. d\<lparr>product_t := add_row r (product_t d)\<rparr>) rs d =
     d\<lparr>product_t := fold add_row rs (product_t d)\<rparr>"
  by (induction rs arbitrary: d) simp_all

lemma fold_store_catalog_item:
  "fold (\<lambda>r d. d\<lparr>catalog_item_t := add_row r (catalog_item_t d)\<rparr>) rs d =
     d\<lparr>catalog_item_t := fold add_row rs (catalog_item_t d)\<rparr>"
  by (induction rs arbitrary: d) simp_all

lemma fold_store_order_status:
  "fold (\<lambda>r d. d\<lparr>order_status_t := add_row r (order_status_t d)\<rparr>) rs d =
     d\<lparr>order_status_t := fold add_row rs (order_status_t d)\<rparr>"
  by (induction rs arbitrary: d) simp_all

lemma fold_store_taken_order:
  "fold (\<lambda>r d. d\<lparr>taken_order_t := add_row r (taken_order_t d)\<rparr>) rs d =
     d\<lparr>taken_order_t := fold add_row rs (taken_order_t d)\<rparr>"
  by (induction rs arbitrary: d) simp_all


lemma fold_store_keyword:
  "fold (\<lambda>r d. d\<lparr>keyword_t := add_row r (keyword_t d)\<rparr>) rs d =
     d\<lparr>keyword_t := fold add_row rs (keyword_t d)\<rparr>"
  by (induction rs arbitrary: d) simp_all

lemma fold_store_permission:
  "fold (\<lambda>r d. d\<lparr>permission_t := add_row r (permission_t d)\<rparr>) rs d =
     d\<lparr>permission_t := fold add_row rs (permission_t d)\<rparr>"
  by (induction rs arbitrary: d) simp_all

lemma fold_store_role:
  "fold (\<lambda>r d. d\<lparr>role_t := add_row r (role_t d)\<rparr>) rs d =
     d\<lparr>role_t := fold add_row rs (role_t d)\<rparr>"
  by (induction rs arbitrary: d) simp_all

lemma fold_store_member:
  "fold (\<lambda>r d. d\<lparr>member_t := add_row (r, None) (member_t d)\<rparr>) rs d =
     d\<lparr>member_t := fold add_row (map (\<lambda>r. (r, None)) rs) (member_t d)\<rparr>"
  by (induction rs arbitrary: d) simp_all

lemma insert_addresses_Inr:
  assumes "insert_addresses f = Inr f'"
  shows "f' = f\<lparr>ext := snd (addresses (size_f f) (ext f)),
                gw := (gw f)\<lparr>issued := issued (gw f) @ replicate (nat (size_f f)) (INSERT T_address)
                                       @ [SELECT_id T_address],
                    db := (db (gw f))\<lparr>address_t :=
                            fold add_row (fst (addresses (size_f f) (ext f)))
                              (address_t (db (gw f)))\<rparr>\<rparr>,
                address_ids := map Some (ids (fold add_row (fst (addresses (size_f f) (ext f)))
                              (address_t (db (gw f)))))\<rparr>"
  using assms
  by (auto simp add: insert_addresses_def split_beta then_do_Inr query_Inr fold_store_address
        length_yield_each addresses_def py_range_def
        dest!: insert_all_Inr)

lemma insert_all_no_faults:
  "faults (gw f) = (\<lambda>n. None) \<Longrightarrow>
     insert_all t store rs f =
       Inr (f\<lparr>gw := (gw f)\<lparr>issued := issued (gw f) @ replicate (length rs) (INSERT t),
                         db := fold store rs (db (gw f))\<rparr>\<rparr>)"
  by (simp add: insert_all_def on_gateway_def insert_each_no_faults)

lemma query_no_faults:
  "faults (gw f) = (\<lambda>n. None) \<Longrightarrow>
     query st change f =
       Inr (f\<lparr>gw := (gw f)\<lparr>issued := issued (gw f) @ [st], db := change (db (gw f))\<rparr>\<rparr>)"
  by (simp add: query_Inr)

lemma insert_addresses_no_faults:
  assumes "faults (gw f) = (\<lambda>n. None)"
  shows "\<exists>f'. insert_addresses f = Inr f'"
  using assms
  by (simp add: insert_addresses_def split_beta then_do_def insert_all_no_faults query_no_faults)

lemma length_try_each_pair:
  "try_each f xs e = (Inr ys, e') \<Longrightarrow> length ys = length xs"
  by (induction xs arbitrary: e ys e') (auto split: prod.splits sum.splits)

lemma length_try_each:
  "fst (try_each f xs e) = Inr ys \<Longrightarrow> length ys = length xs"
  by (cases "try_each f xs e") (auto dest: length_try_each_pair)

lemma length_addresses: "length (fst (addresses n e)) = nat n"
  by (simp add: addresses_def py_range_def length_yield_each)

lemma length_pizzerias: "length (fst (pizzerias a e)) = 5"
proof -
  have "length (map Pizzeria.name (fst (pizzerias a e))) = length pizzeria_names"
    by (simp only: pizzerias_names)
  then show ?thesis by (simp add: pizzeria_names_def)
qed

lemma length_members: "fst (members a p n e) = Inr rs \<Longrightarrow> length rs = nat n"
  by (auto simp add: members_def split_beta Let_def py_range_def split: if_splits
      dest!: length_try_each)

lemma length_user_accounts: "fst (user_accounts m n e) = Inr rs \<Longrightarrow> length rs = nat n"
  by (auto simp add: user_accounts_def split_beta Let_def py_range_def length_yield_each
      split: if_splits)

lemma length_taken_orders: "fst (taken_orders m a p s n e) = Inr rs \<Longrightarrow> length rs = nat n"
  by (auto simp add: taken_orders_def split_beta Let_def py_range_def split: if_splits
      dest!: length_try_each)


lemma length_recipe_names: "length recipe_names = 23"
  by (simp add: recipe_names_def)

lemma length_product_names: "length product_names = 35"
  by (simp add: product_names_def)

lemma length_recipes: "length (fst (recipes e)) = 23"
  by (simp add: recipes_def length_yield_each length_recipe_names)

lemma length_products: "length (fst (products e)) = 35"
  by (simp add: products_def length_yield_each length_product_names)

lemma length_catalog_items: "fst (catalog_items d e) = Inr rs \<Longrightarrow> length rs = length d"
  by (auto simp add: catalog_items_def dest!: length_try_each)

lemma length_order_status: "length order_status = 4"
  by (simp add: order_status_def)

lemma length_keywords: "length keywords_py = 35"
  by (simp add: keywords_py_def)

lemma length_permissions: "length permissions = 5"
  by (simp add: permissions_def)

lemma length_roles: "length roles = 5"
  by (simp add: roles_def)

lemma insert_pizzerias_Inr:
  assumes "insert_pizzerias f = Inr f'"
  shows "f' = f\<lparr>ext := snd (snd (pizzerias (address_ids f) (ext f))),
                address_ids := fst (snd (pizzerias (address_ids f) (ext f))),
                gw := (gw f)\<lparr>issued := issued (gw f) @ replicate 5 (INSERT T_pizzeria)
                                       @ [SELECT_id T_pizzeria],
                    db := (db (gw f))\<lparr>pizzeria_t :=
                            fold add_row (fst (pizzerias (address_ids f) (ext f)))
                              (pizzeria_t (db (gw f)))\<rparr>\<rparr>,
                pizzeria_ids := ids (fold add_row (fst (pizzerias (address_ids f) (ext f)))
                              (pizzeria_t (db (gw f))))\<rparr>"
  using assms
  by (auto simp add: insert_pizzerias_def split_beta then_do_Inr query_Inr fold_store_pizzeria
        length_pizzerias dest!: insert_all_Inr)

lemma insert_members_Inr:
  assumes "insert_members f = Inr f'"
  shows "\<exists>rs. fst (members (address_ids f) (pizzeria_ids f) (size_f f) (ext f)) = Inr rs
     \<and> f' = f\<lparr>ext := snd (snd (members (address_ids f) (pizzeria_ids f) (size_f f) (ext f))),
                address_ids :=
                  fst (snd (members (address_ids f) (pizzeria_ids f) (size_f f) (ext f))),
                gw := (gw f)\<lparr>issued := issued (gw f) @ replicate (nat (size_f f)) (INSERT T_member)
                                       @ [SELECT_id T_member],
                    db := (db (gw f))\<lparr>member_t :=
                            fold add_row (map (\<lambda>r. (r, None)) rs) (member_t (db (gw f)))\<rparr>\<rparr>,
                member_ids := ids (fold add_row (map (\<lambda>r. (r, None)) rs)
                                (member_t (db (gw f))))\<rparr>"
  using assms
  by (auto simp add: insert_members_def split_beta Let_def then_do_Inr query_Inr
        fold_store_member length_members split: sum.splits dest!: insert_all_Inr)

lemma insert_user_accounts_Inr:
  assumes "insert_user_accounts f = Inr f'"
  shows "\<exists>rs. fst (user_accounts (member_ids f) (size_f f) (ext f)) = Inr rs
     \<and> f' = f\<lparr>ext := snd (snd (user_accounts (member_ids f) (size_f f) (ext f))),
                member_ids := fst (snd (user_accounts (member_ids f) (size_f f) (ext f))),
                gw := (gw f)\<lparr>issued := issued (gw f)
                                       @ replicate (nat (size_f f)) (INSERT T_user_account)
                                       @ [SELECT_id_member_id],
                    db := (db (gw f))\<lparr>user_account_t :=
                            fold add_row rs (user_account_t (db (gw f)))\<rparr>\<rparr>,
                user_accounts_pool :=
                  dict_of (map (\<lambda>(i, r). (UserAccount.member_id r, i))
                             (fold add_row rs (user_account_t (db (gw f)))))\<rparr>"
  using assms
  by (auto simp add: insert_user_accounts_def split_beta Let_def then_do_Inr query_Inr
        fold_store_user_account length_user_accounts split: sum.splits dest!: insert_all_Inr)

lemma insert_taken_orders_Inr:
  assumes "insert_taken_orders f = Inr f'"
  shows "\<exists>rs. fst (taken_orders (member_ids f) (address_ids f) (pizzeria_ids f)
                   (order_status_ids f) (size_f f) (ext f)) = Inr rs
     \<and> f' = f\<lparr>ext := snd (snd (snd (taken_orders (member_ids f) (address_ids f)
                   (pizzeria_ids f) (order_status_ids f) (size_f f) (ext f)))),
                member_ids := fst (snd (taken_orders (member_ids f) (address_ids f)
                   (pizzeria_ids f) (order_status_ids f) (size_f f) (ext f))),
                address_ids := fst (snd (snd (taken_orders (member_ids f) (address_ids f)
                   (pizzeria_ids f) (order_status_ids f) (size_f f) (ext f)))),
                gw := (gw f)\<lparr>issued := issued (gw f)
                                       @ replicate (nat (size_f f)) (INSERT T_taken_order)
                                       @ [SELECT_id T_taken_order],
                    db := (db (gw f))\<lparr>taken_order_t :=
                            fold add_row rs (taken_order_t (db (gw f)))\<rparr>\<rparr>,
                taken_order_ids := ids (fold add_row rs (taken_order_t (db (gw f))))\<rparr>"
  using assms
  by (auto simp add: insert_taken_orders_def split_beta Let_def then_do_Inr query_Inr
        fold_store_taken_order length_taken_orders split: sum.splits dest!: insert_all_Inr)


lemma insert_recipes_Inr:
  assumes "insert_recipes f = Inr f'"
  shows "f' = f\<lparr>ext := snd (recipes (ext f)),
                gw := (gw f)\<lparr>issued := issued (gw f) @ replicate 23 (INSERT T_recipe)
                                       @ [SELECT_name_id],
                    db := (db (gw f))\<lparr>recipe_t :=
                            fold add_row (fst (recipes (ext f))) (recipe_t (db (gw f)))\<rparr>\<rparr>,
                recipes_pool :=
                  dict_of (map (\<lambda>(i, r). (Recipe.name r, i))
                             (fold add_row (fst (recipes (ext f))) (recipe_t (db (gw f)))))\<rparr>"
  using assms
  by (auto simp add: insert_recipes_def split_beta then_do_Inr query_Inr fold_store_recipe
        length_recipes dest!: insert_all_Inr)

lemma insert_catalog_items_Inr:
  assumes "insert_catalog_items f = Inr f'"
  shows "\<exists>rs. fst (catalog_items (recipes_pool f) (ext f)) = Inr rs
     \<and> f' = f\<lparr>ext := snd (catalog_items (recipes_pool f) (ext f)),
                gw := (gw f)\<lparr>issued := issued (gw f)
                                       @ replicate (length (recipes_pool f)) (INSERT T_catalog_item)
                                       @ [SELECT_id T_catalog_item],
                    db := (db (gw f))\<lparr>catalog_item_t :=
                            fold add_row rs (catalog_item_t (db (gw f)))\<rparr>\<rparr>,
                catalog_item_ids := ids (fold add_row rs (catalog_item_t (db (gw f))))\<rparr>"
  using assms
  by (auto simp add: insert_catalog_items_def split_beta Let_def then_do_Inr query_Inr
        fold_store_catalog_item length_catalog_items split: sum.splits dest!: insert_all_Inr)

lemma insert_order_status_Inr:
  assumes "insert_order_status f = Inr f'"
  shows "f' = f\<lparr>gw := (gw f)\<lparr>issued := issued (gw f) @ replicate 4 (INSERT T_order_status)
                                       @ [SELECT_id T_order_status],
                    db := (db (gw f))\<lparr>order_status_t :=
                            fold add_row order_status (order_status_t (db (gw f)))\<rparr>\<rparr>,
                order_status_ids := ids (fold add_row order_status (order_status_t (db (gw f))))\<rparr>"
  using assms
  by (auto simp add: insert_order_status_def then_do_Inr query_Inr fold_store_order_status
        length_order_status dest!: insert_all_Inr)

lemma insert_keywords_Inr:
  assumes "insert_keywords f = Inr f'"
  shows "f' = f\<lparr>gw := (gw f)\<lparr>issued := issued (gw f) @ replicate 35 (INSERT T_keyword)
                                       @ [SELECT_id T_keyword],
                    db := (db (gw f))\<lparr>keyword_t :=
                            fold add_row keywords_py (keyword_t (db (gw f)))\<rparr>\<rparr>,
                keyword_ids := ids (fold add_row keywords_py (keyword_t (db (gw f))))\<rparr>"
  using assms
  by (auto simp add: insert_keywords_def then_do_Inr query_Inr fold_store_keyword
        length_keywords dest!: insert_all_Inr)

lemma insert_permissions_Inr:
  assumes "insert_permissions f = Inr f'"
  shows "f' = f\<lparr>gw := (gw f)\<lparr>issued := issued (gw f) @ replicate 5 (INSERT T_permission)
                                       @ [SELECT_id T_permission],
                    db := (db (gw f))\<lparr>permission_t :=
                            fold add_row permissions (permission_t (db (gw f)))\<rparr>\<rparr>,
                permission_ids := ids (fold add_row permissions (permission_t (db (gw f))))\<rparr>"
  using assms
  by (auto simp add: insert_permissions_def then_do_Inr query_Inr fold_store_permission
        length_permissions dest!: insert_all_Inr)

lemma insert_roles_Inr:
  assumes "insert_roles f = Inr f'"
  shows "f' = f\<lparr>gw := (gw f)\<lparr>issued := issued (gw f) @ replicate 5 (INSERT T_role)
                                       @ [SELECT_id T_role],
                    db := (db (gw f))\<lparr>role_t := fold add_row roles (role_t (db (gw f)))\<rparr>\<rparr>,
                role_ids := ids (fold add_row roles (role_t (db (gw f))))\<rparr>"
  using assms
  by (auto simp add: insert_roles_def then_do_Inr query_Inr fold_store_role
        length_roles dest!: insert_all_Inr)

lemma insert_products_loop_Inr:
  "insert_products_loop rs f = Inr f' \<Longrightarrow>
     f' = f\<lparr>gw := (gw f)\<lparr>issued := issued (gw f)
                         @ concat (replicate (length rs) [INSERT T_product, SELECT_id T_product]),
                     db := (db (gw f))\<lparr>product_t := fold add_row rs (product_t (db (gw f)))\<rparr>\<rparr>,
             product_ids := (if rs = [] then product_ids f
                             else ids (fold add_row rs (product_t (db (gw f)))))\<rparr>"
proof (induction rs arbitrary: f)
  case Nil
  then show ?case by simp
next
  case (Cons r rs)
  from Cons.prems obtain f1 f2 where
    f1: "query (INSERT T_product) (\<lambda>d. d\<lparr>product_t := add_row r (product_t d)\<rparr>) f = Inr f1"
    and f2: "query (SELECT_id T_product) id f1 = Inr f2"
    and rest: "insert_products_loop rs (f2\<lparr>product_ids := ids (product_t (db (gw f2)))\<rparr>) = Inr f'"
    by (auto simp add: then_do_Inr)
  from f1 f2 Cons.IH [OF rest] show ?case
    by (cases rs) (auto simp add: query_Inr)
qed

lemma insert_products_Inr:
  assumes "insert_products f = Inr f'"
  shows "f' = f\<lparr>ext := snd (products (ext f)),
                gw := (gw f)\<lparr>issued := issued (gw f)
                         @ concat (replicate 35 [INSERT T_product, SELECT_id T_product]),
                     db := (db (gw f))\<lparr>product_t :=
                            fold add_row (fst (products (ext f))) (product_t (db (gw f)))\<rparr>\<rparr>,
                product_ids := ids (fold add_row (fst (products (ext f)))
                                      (product_t (db (gw f))))\<rparr>"
proof -
  have "fst (products (ext f)) \<noteq> []"
    using length_products [of "ext f"] by auto
  with assms show ?thesis
    by (auto simp add: insert_products_def split_beta length_products
        dest!: insert_products_loop_Inr)
qed



subsection \<open>When the generators succeed\<close>

lemma try_each_ok:
  assumes "\<And>x e. x \<in> set xs \<Longrightarrow> \<exists>y. fst (f x e) = Inr y"
  shows "\<exists>ys. fst (try_each f xs e) = Inr ys"
  using assms
proof (induction xs arbitrary: e)
  case Nil
  show ?case by simp
next
  case (Cons x xs)
  obtain y where y: "fst (f x e) = Inr y"
    using Cons.prems [of x e] by auto
  obtain ys where ys: "fst (try_each f xs (snd (f x e))) = Inr ys"
    using Cons.IH [of "snd (f x e)"] Cons.prems by auto
  from y ys show ?case
    by (auto split: prod.splits sum.splits)
qed

lemma choice_ok: "xs \<noteq> [] \<Longrightarrow> \<exists>x. fst (choice xs e) = Inr x"
  by (simp add: choice_def split_beta)

lemma and_then_ok:
  assumes "\<exists>x. fst r = Inr x" and "\<And>x e. \<exists>y. fst (k x e) = Inr y"
  shows "\<exists>y. fst (and_then r k) = Inr y"
  using assms by (cases r) (auto simp add: and_then_def)

lemma length_shuffle: "length (fst (shuffle xs e)) = length xs"
  by (simp add: shuffle_fst length_permute)

lemma members_ok:
  assumes "\<not> int (length a) < n" and "p \<noteq> []"
  shows "\<exists>rs. fst (members a p n e) = Inr rs"
proof -
  have "fst (yield_each (\<lambda>i. choice2 None (Some i)) p e) \<noteq> []"
    using length_yield_each [of "\<lambda>i. choice2 None (Some i)" p e] assms(2) by auto
  then have "\<exists>rs. fst (try_each (\<lambda>i e'. and_then
        (choice (fst (yield_each (\<lambda>i. choice2 None (Some i)) p e)) e')
        (\<lambda>pz e''. (let (m, e''') = FakeMember pz (l ! i) e'' in (Inr m, e'''))))
      xs e0) = Inr rs" for l xs e0
    by (intro try_each_ok and_then_ok choice_ok) (simp_all add: split_beta)
  with assms(1) show ?thesis
    by (simp add: members_def split_beta Let_def)
qed

lemma user_accounts_ok:
  "\<not> int (length m) < n \<Longrightarrow> \<exists>rs. fst (user_accounts m n e) = Inr rs"
  by (simp add: user_accounts_def split_beta Let_def)

lemma FakeTakenOrder_ok:
  "s \<noteq> [] \<Longrightarrow> \<exists>t. fst (FakeTakenOrder m a p s e) = Inr t"
  by (simp add: FakeTakenOrder_def choice_def split_beta)

lemma taken_orders_ok:
  assumes "\<not> int (length m) < n" and "\<not> int (length a) < n" and "p \<noteq> []" and "s \<noteq> []"
  shows "\<exists>rs. fst (taken_orders m a p s n e) = Inr rs"
proof (cases "0 < n")
  case False
  then show ?thesis
    using assms(1,2) by (simp add: taken_orders_def split_beta Let_def py_range_def)
next
  case True
  with assms(1,2) have m: "m \<noteq> []" and a: "a \<noteq> []"
    by auto
  have m': "fst (shuffle m e0) \<noteq> []" for e0
    using m length_shuffle [of m e0] by auto
  have a': "fst (shuffle a e0) \<noteq> []" for e0
    using a length_shuffle [of a e0] by auto
  have "\<exists>rs. fst (try_each (\<lambda>i e.
                    and_then (choice (fst (shuffle m e1)) e) (\<lambda>mm e.
                    and_then (choice (fst (shuffle a e2)) e) (\<lambda>aa e.
                    and_then (choice p e) (\<lambda>pp e.
                      FakeTakenOrder mm aa pp s e)))) xs e0) = Inr rs" for xs e0 e1 e2
    by (intro try_each_ok and_then_ok choice_ok FakeTakenOrder_ok m' a' assms)
  with assms(1,2) show ?thesis
    by (simp add: taken_orders_def split_beta Let_def)
qed


lemma catalog_items_ok: "\<exists>rs. fst (catalog_items d e) = Inr rs"
  unfolding catalog_items_def
  by (rule try_each_ok) (simp add: FakeCatalogItem_def split_beta Let_def)

subsection \<open>A gateway that never fails lets the stages return\<close>

lemma insert_pizzerias_no_faults:
  "faults (gw f) = (\<lambda>n. None) \<Longrightarrow> \<exists>f'. insert_pizzerias f = Inr f'"
  by (simp add: insert_pizzerias_def split_beta then_do_def insert_all_no_faults query_no_faults)

lemma insert_members_no_faults:
  assumes "faults (gw f) = (\<lambda>n. None)"
    and "\<not> int (length (address_ids f)) < size_f f" and "pizzeria_ids f \<noteq> []"
  shows "\<exists>f'. insert_members f = Inr f'"
proof -
  obtain rs where "fst (members (address_ids f) (pizzeria_ids f) (size_f f) (ext f)) = Inr rs"
    using members_ok [OF assms(2,3)] by blast
  with assms(1) show ?thesis
    by (simp add: insert_members_def split_beta Let_def then_do_def insert_all_no_faults
        query_no_faults)
qed

lemma insert_user_accounts_no_faults:
  assumes "faults (gw f) = (\<lambda>n. None)" and "\<not> int (length (member_ids f)) < size_f f"
  shows "\<exists>f'. insert_user_accounts f = Inr f'"
proof -
  obtain rs where "fst (user_accounts (member_ids f) (size_f f) (ext f)) = Inr rs"
    using user_accounts_ok [OF assms(2)] by blast
  with assms(1) show ?thesis
    by (simp add: insert_user_accounts_def split_beta Let_def then_do_def insert_all_no_faults
        query_no_faults)
qed

lemma insert_taken_orders_no_faults:
  assumes "faults (gw f) = (\<lambda>n. None)"
    and "\<not> int (length (member_ids f)) < size_f f"
    and "\<not> int (length (address_ids f)) < size_f f"
    and "pizzeria_ids f \<noteq> []" and "order_status_ids f \<noteq> []"
  shows "\<exists>f'. insert_taken_orders f = Inr f'"
proof -
  obtain rs where "fst (taken_orders (member_ids f) (address_ids f) (pizzeria_ids f)
      (order_status_ids f) (size_f f) (ext f)) = Inr rs"
    using taken_orders_ok [OF assms(2-5)] by blast
  with assms(1) show ?thesis
    by (simp add: insert_taken_orders_def split_beta Let_def then_do_def insert_all_no_faults
        query_no_faults)
qed


lemma insert_recipes_no_faults:
  "faults (gw f) = (\<lambda>n. None) \<Longrightarrow> \<exists>f'. insert_recipes f = Inr f'"
  by (simp add: insert_recipes_def split_beta then_do_def insert_all_no_faults query_no_faults)

lemma insert_products_loop_no_faults:
  "faults (gw f) = (\<lambda>n. None) \<Longrightarrow> \<exists>f'. insert_products_loop rs f = Inr f'"
  by (induction rs arbitrary: f) (simp_all add: then_do_def query_no_faults)

lemma insert_products_no_faults:
  "faults (gw f) = (\<lambda>n. None) \<Longrightarrow> \<exists>f'. insert_products f = Inr f'"
  by (simp add: insert_products_def split_beta insert_products_loop_no_faults)

lemma insert_catalog_items_no_faults:
  assumes "faults (gw f) = (\<lambda>n. None)"
  shows "\<exists>f'. insert_catalog_items f = Inr f'"
proof -
  obtain rs where "fst (catalog_items (recipes_pool f) (ext f)) = Inr rs"
    using catalog_items_ok by blast
  with assms show ?thesis
    by (simp add: insert_catalog_items_def split_beta Let_def then_do_def insert_all_no_faults
        query_no_faults)
qed

lemma insert_order_status_no_faults:
  "faults (gw f) = (\<lambda>n. None) \<Longrightarrow> \<exists>f'. insert_order_status f = Inr f'"
  by (simp add: insert_order_status_def then_do_def insert_all_no_faults query_no_faults)

lemma insert_keywords_no_faults:
  "faults (gw f) = (\<lambda>n. None) \<Longrightarrow> \<exists>f'. insert_keywords f = Inr f'"
  by (simp add: insert_keywords_def then_do_def insert_all_no_faults query_no_faults)

lemma insert_permissions_no_faults:
  "faults (gw f) = (\<lambda>n. None) \<Longrightarrow> \<exists>f'. insert_permissions f = Inr f'"
  by (simp add: insert_permissions_def then_do_def insert_all_no_faults query_no_faults)

lemma insert_roles_no_faults:
  "faults (gw f) = (\<lambda>n. None) \<Longrightarrow> \<exists>f'. insert_roles f = Inr f'"
  by (simp add: insert_roles_def then_do_def insert_all_no_faults query_no_faults)



lemma update_role_loop_no_faults:
  "faults (gw f) = (\<lambda>n. None) \<Longrightarrow> role_ids f \<noteq> [] \<Longrightarrow>
     \<exists>f'. update_role_loop todo f = Inr f'"
  by (induction todo arbitrary: f)
     (auto simp add: then_do_def query_no_faults choice_def split_beta)

lemma update_members_role_no_faults:
  "faults (gw f) = (\<lambda>n. None) \<Longrightarrow> role_ids f \<noteq> [] \<Longrightarrow>
     \<exists>f'. update_members_role f = Inr f'"
  by (simp add: update_members_role_def then_do_def query_no_faults update_role_loop_no_faults)

section \<open>The pools after an insertion stage\<close>

lemma fold_add_row_grows:
  "\<exists>new. fold add_row rs t = t @ new \<and> length new = length rs"
  by (simp add: fold_add_row)

lemma insert_addresses_scan:
  assumes "insert_addresses f = Inr f'"
  shows "address_ids f' = map Some (ids (address_t (db (gw f'))))
     \<and> (\<exists>new. address_t (db (gw f')) = address_t (db (gw f)) @ new \<and> length new = nat (size_f f))"
  using insert_addresses_Inr [OF assms] by (auto simp add: fold_add_row length_addresses)

lemma insert_pizzerias_scan:
  assumes "insert_pizzerias f = Inr f'"
  shows "pizzeria_ids f' = ids (pizzeria_t (db (gw f')))
     \<and> (\<exists>new. pizzeria_t (db (gw f')) = pizzeria_t (db (gw f)) @ new \<and> length new = 5)"
  using insert_pizzerias_Inr [OF assms] by (auto simp add: fold_add_row length_pizzerias)

lemma insert_members_scan:
  assumes "insert_members f = Inr f'"
  shows "member_ids f' = ids (member_t (db (gw f')))
     \<and> (\<exists>new. member_t (db (gw f')) = member_t (db (gw f)) @ new \<and> length new = nat (size_f f))"
  using insert_members_Inr [OF assms] by (auto simp add: fold_add_row length_members)

lemma insert_user_accounts_scan:
  assumes "insert_user_accounts f = Inr f'"
  shows "user_accounts_pool f' =
          dict_of (map (\<lambda>(i, r). (UserAccount.member_id r, i)) (user_account_t (db (gw f'))))
     \<and> (\<exists>new. user_account_t (db (gw f')) = user_account_t (db (gw f)) @ new \<and> length new = nat (size_f f))"
  using insert_user_accounts_Inr [OF assms] by (auto simp add: fold_add_row length_user_accounts)

lemma insert_recipes_scan:
  assumes "insert_recipes f = Inr f'"
  shows "recipes_pool f' =
          dict_of (map (\<lambda>(i, r). (Recipe.name r, i)) (recipe_t (db (gw f'))))
     \<and> (\<exists>new. recipe_t (db (gw f')) = recipe_t (db (gw f)) @ new \<and> length new = 23)"
  using insert_recipes_Inr [OF assms] by (auto simp add: fold_add_row length_recipes)

lemma insert_products_scan:
  assumes "insert_products f = Inr f'"
  shows "product_ids f' = ids (product_t (db (gw f')))
     \<and> (\<exists>new. product_t (db (gw f')) = product_t (db (gw f)) @ new \<and> length new = 35)"
  using insert_products_Inr [OF assms] by (auto simp add: fold_add_row length_products)

lemma insert_catalog_items_scan:
  assumes "insert_catalog_items f = Inr f'"
  shows "catalog_item_ids f' = ids (catalog_item_t (db (gw f')))
     \<and> (\<exists>new. catalog_item_t (db (gw f')) = catalog_item_t (db (gw f)) @ new \<and> length new = length (recipes_pool f))"
  using insert_catalog_items_Inr [OF assms] by (auto simp add: fold_add_row length_catalog_items)

lemma insert_order_status_scan:
  assumes "insert_order_status f = Inr f'"
  shows "order_status_ids f' = ids (order_status_t (db (gw f')))
     \<and> (\<exists>new. order_status_t (db (gw f')) = order_status_t (db (gw f)) @ new \<and> length new = 4)"
  using insert_order_status_Inr [OF assms] by (auto simp add: fold_add_row length_order_status)

lemma insert_taken_orders_scan:
  assumes "insert_taken_orders f = Inr f'"
  shows "taken_order_ids f' = ids (taken_order_t (db (gw f')))
     \<and> (\<exists>new. taken_order_t (db (gw f')) = taken_order_t (db (gw f)) @ new \<and> length new = nat (size_f f))"
  using insert_taken_orders_Inr [OF assms] by (auto simp add: fold_add_row length_taken_orders)

lemma insert_keywords_scan:
  assumes "insert_keywords f = Inr f'"
  shows "keyword_ids f' = ids (keyword_t (db (gw f')))
     \<and> (\<exists>new. keyword_t (db (gw f')) = keyword_t (db (gw f)) @ new \<and> length new = 35)"
  using insert_keywords_Inr [OF assms] by (auto simp add: fold_add_row length_keywords)

lemma insert_permissions_scan:
  assumes "insert_permissions f = Inr f'"
  shows "permission_ids f' = ids (permission_t (db (gw f')))
     \<and> (\<exists>new. permission_t (db (gw f')) = permission_t (db (gw f)) @ new \<and> length new = 5)"
  using insert_permissions_Inr [OF assms] by (auto simp add: fold_add_row length_permissions)

lemma insert_roles_scan:
  assumes "insert_roles f = Inr f'"
  shows "role_ids f' = ids (role_t (db (gw f')))
     \<and> (\<exists>new. role_t (db (gw f')) = role_t (db (gw f)) @ new \<and> length new = 5)"
  using insert_roles_Inr [OF assms] by (auto simp add: fold_add_row length_roles)

text \<open>
  Claim C1, as amended. Each insertion stage refreshes its pool from a \<^verbatim>\<open>SELECT\<close> over
  the whole table, sent after its insertions. When the stage returns, the table is the
  table it found followed by the rows it inserted, and the pool holds the identifiers of
  all these rows, the earlier ones first; the two pools that are dictionaries are built
  from all rows of the table, a later row replacing the entry of an earlier row with the
  same key.
\<close>

theorem pools_are_scans_of_the_whole_table:
  "(insert_addresses f = Inr f' \<longrightarrow>
      address_ids f' = map Some (ids (address_t (db (gw f'))))
      \<and> (\<exists>new. address_t (db (gw f')) = address_t (db (gw f)) @ new \<and> length new = nat (size_f f)))
   \<and> (insert_pizzerias f = Inr f' \<longrightarrow>
      pizzeria_ids f' = ids (pizzeria_t (db (gw f')))
      \<and> (\<exists>new. pizzeria_t (db (gw f')) = pizzeria_t (db (gw f)) @ new \<and> length new = 5))
   \<and> (insert_members f = Inr f' \<longrightarrow>
      member_ids f' = ids (member_t (db (gw f')))
      \<and> (\<exists>new. member_t (db (gw f')) = member_t (db (gw f)) @ new \<and> length new = nat (size_f f)))
   \<and> (insert_user_accounts f = Inr f' \<longrightarrow>
      user_accounts_pool f' =
          dict_of (map (\<lambda>(i, r). (UserAccount.member_id r, i)) (user_account_t (db (gw f'))))
      \<and> (\<exists>new. user_account_t (db (gw f')) = user_account_t (db (gw f)) @ new \<and> length new = nat (size_f f)))
   \<and> (insert_recipes f = Inr f' \<longrightarrow>
      recipes_pool f' =
          dict_of (map (\<lambda>(i, r). (Recipe.name r, i)) (recipe_t (db (gw f'))))
      \<and> (\<exists>new. recipe_t (db (gw f')) = recipe_t (db (gw f)) @ new \<and> length new = 23))
   \<and> (insert_products f = Inr f' \<longrightarrow>
      product_ids f' = ids (product_t (db (gw f')))
      \<and> (\<exists>new. product_t (db (gw f')) = product_t (db (gw f)) @ new \<and> length new = 35))
   \<and> (insert_catalog_items f = Inr f' \<longrightarrow>
      catalog_item_ids f' = ids (catalog_item_t (db (gw f')))
      \<and> (\<exists>new. catalog_item_t (db (gw f')) = catalog_item_t (db (gw f)) @ new \<and> length new = length (recipes_pool f)))
   \<and> (insert_order_status f = Inr f' \<longrightarrow>
      order_status_ids f' = ids (order_status_t (db (gw f')))
      \<and> (\<exists>new. order_status_t (db (gw f')) = order_status_t (db (gw f)) @ new \<and> length new = 4))
   \<and> (insert_taken_orders f = Inr f' \<longrightarrow>
      taken_order_ids f' = ids (taken_order_t (db (gw f')))
      \<and> (\<exists>new. taken_order_t (db (gw f')) = taken_order_t (db (gw f)) @ new \<and> length new = nat (size_f f)))
   \<and> (insert_keywords f = Inr f' \<longrightarrow>
      keyword_ids f' = ids (keyword_t (db (gw f')))
      \<and> (\<exists>new. keyword_t (db (gw f')) = keyword_t (db (gw f)) @ new \<and> length new = 35))
   \<and> (insert_permissions f = Inr f' \<longrightarrow>
      permission_ids f' = ids (permission_t (db (gw f')))
      \<and> (\<exists>new. permission_t (db (gw f')) = permission_t (db (gw f)) @ new \<and> length new = 5))
   \<and> (insert_roles f = Inr f' \<longrightarrow>
      role_ids f' = ids (role_t (db (gw f')))
      \<and> (\<exists>new. role_t (db (gw f')) = role_t (db (gw f)) @ new \<and> length new = 5))"
  using insert_addresses_scan [of f f']
    insert_pizzerias_scan [of f f']
    insert_members_scan [of f f']
    insert_user_accounts_scan [of f f']
    insert_recipes_scan [of f f']
    insert_products_scan [of f f']
    insert_catalog_items_scan [of f f']
    insert_order_status_scan [of f f']
    insert_taken_orders_scan [of f f']
    insert_keywords_scan [of f f']
    insert_permissions_scan [of f f']
    insert_roles_scan [of f f']
  by blast

theorem pools_are_scans_of_the_whole_table_witness:
  "(\<exists>g. insert_addresses feeder_rerun = Inr g
         \<and> address_ids g = map Some (ids (address_t (db (gw g)))))
   \<and> (\<exists>g. insert_pizzerias feeder_rerun = Inr g
         \<and> pizzeria_ids g = ids (pizzeria_t (db (gw g))))
   \<and> (\<exists>g. insert_members feeder_rerun = Inr g
         \<and> member_ids g = ids (member_t (db (gw g))))
   \<and> (\<exists>g. insert_user_accounts feeder_rerun = Inr g
         \<and> user_accounts_pool g =
          dict_of (map (\<lambda>(i, r). (UserAccount.member_id r, i)) (user_account_t (db (gw g)))))
   \<and> (\<exists>g. insert_recipes feeder_rerun = Inr g
         \<and> recipes_pool g =
          dict_of (map (\<lambda>(i, r). (Recipe.name r, i)) (recipe_t (db (gw g)))))
   \<and> (\<exists>g. insert_products feeder_rerun = Inr g
         \<and> product_ids g = ids (product_t (db (gw g))))
   \<and> (\<exists>g. insert_catalog_items feeder_rerun = Inr g
         \<and> catalog_item_ids g = ids (catalog_item_t (db (gw g))))
   \<and> (\<exists>g. insert_order_status feeder_rerun = Inr g
         \<and> order_status_ids g = ids (order_status_t (db (gw g))))
   \<and> (\<exists>g. insert_taken_orders feeder_rerun = Inr g
         \<and> taken_order_ids g = ids (taken_order_t (db (gw g))))
   \<and> (\<exists>g. insert_keywords feeder_rerun = Inr g
         \<and> keyword_ids g = ids (keyword_t (db (gw g))))
   \<and> (\<exists>g. insert_permissions feeder_rerun = Inr g
         \<and> permission_ids g = ids (permission_t (db (gw g))))
   \<and> (\<exists>g. insert_roles feeder_rerun = Inr g
         \<and> role_ids g = ids (role_t (db (gw g))))"
proof -
  have nf: "faults (gw feeder_rerun) = (\<lambda>n. None)"
    by (simp add: feeder_rerun_def DatabaseFeeder_def gateway0_def)
  have pools: "\<not> int (length (address_ids feeder_rerun)) < size_f feeder_rerun"
    "\<not> int (length (member_ids feeder_rerun)) < size_f feeder_rerun"
    "pizzeria_ids feeder_rerun \<noteq> []" "order_status_ids feeder_rerun \<noteq> []"
    by (simp_all add: feeder_rerun_def DatabaseFeeder_def)
  obtain g0 where g0: "insert_addresses feeder_rerun = Inr g0"
    using insert_addresses_no_faults [OF nf] by blast
  obtain g1 where g1: "insert_pizzerias feeder_rerun = Inr g1"
    using insert_pizzerias_no_faults [OF nf] by blast
  obtain g2 where g2: "insert_members feeder_rerun = Inr g2"
    using insert_members_no_faults [OF nf pools(1,3)] by blast
  obtain g3 where g3: "insert_user_accounts feeder_rerun = Inr g3"
    using insert_user_accounts_no_faults [OF nf pools(2)] by blast
  obtain g4 where g4: "insert_recipes feeder_rerun = Inr g4"
    using insert_recipes_no_faults [OF nf] by blast
  obtain g5 where g5: "insert_products feeder_rerun = Inr g5"
    using insert_products_no_faults [OF nf] by blast
  obtain g6 where g6: "insert_catalog_items feeder_rerun = Inr g6"
    using insert_catalog_items_no_faults [OF nf] by blast
  obtain g7 where g7: "insert_order_status feeder_rerun = Inr g7"
    using insert_order_status_no_faults [OF nf] by blast
  obtain g8 where g8: "insert_taken_orders feeder_rerun = Inr g8"
    using insert_taken_orders_no_faults [OF nf pools(2,1,3,4)] by blast
  obtain g9 where g9: "insert_keywords feeder_rerun = Inr g9"
    using insert_keywords_no_faults [OF nf] by blast
  obtain g10 where g10: "insert_permissions feeder_rerun = Inr g10"
    using insert_permissions_no_faults [OF nf] by blast
  obtain g11 where g11: "insert_roles feeder_rerun = Inr g11"
    using insert_roles_no_faults [OF nf] by blast
  have w0: "\<exists>g. insert_addresses feeder_rerun = Inr g
         \<and> address_ids g = map Some (ids (address_t (db (gw g))))"
    using pools_are_scans_of_the_whole_table [of feeder_rerun g0] g0 by blast
  have w1: "\<exists>g. insert_pizzerias feeder_rerun = Inr g
         \<and> pizzeria_ids g = ids (pizzeria_t (db (gw g)))"
    using pools_are_scans_of_the_whole_table [of feeder_rerun g1] g1 by blast
  have w2: "\<exists>g. insert_members feeder_rerun = Inr g
         \<and> member_ids g = ids (member_t (db (gw g)))"
    using pools_are_scans_of_the_whole_table [of feeder_rerun g2] g2 by blast
  have w3: "\<exists>g. insert_user_accounts feeder_rerun = Inr g
         \<and> user_accounts_pool g =
          dict_of (map (\<lambda>(i, r). (UserAccount.member_id r, i)) (user_account_t (db (gw g))))"
    using pools_are_scans_of_the_whole_table [of feeder_rerun g3] g3 by blast
  have w4: "\<exists>g. insert_recipes feeder_rerun = Inr g
         \<and> recipes_pool g =
          dict_of (map (\<lambda>(i, r). (Recipe.name r, i)) (recipe_t (db (gw g))))"
    using pools_are_scans_of_the_whole_table [of feeder_rerun g4] g4 by blast
  have w5: "\<exists>g. insert_products feeder_rerun = Inr g
         \<and> product_ids g = ids (product_t (db (gw g)))"
    using pools_are_scans_of_the_whole_table [of feeder_rerun g5] g5 by blast
  have w6: "\<exists>g. insert_catalog_items feeder_rerun = Inr g
         \<and> catalog_item_ids g = ids (catalog_item_t (db (gw g)))"
    using pools_are_scans_of_the_whole_table [of feeder_rerun g6] g6 by blast
  have w7: "\<exists>g. insert_order_status feeder_rerun = Inr g
         \<and> order_status_ids g = ids (order_status_t (db (gw g)))"
    using pools_are_scans_of_the_whole_table [of feeder_rerun g7] g7 by blast
  have w8: "\<exists>g. insert_taken_orders feeder_rerun = Inr g
         \<and> taken_order_ids g = ids (taken_order_t (db (gw g)))"
    using pools_are_scans_of_the_whole_table [of feeder_rerun g8] g8 by blast
  have w9: "\<exists>g. insert_keywords feeder_rerun = Inr g
         \<and> keyword_ids g = ids (keyword_t (db (gw g)))"
    using pools_are_scans_of_the_whole_table [of feeder_rerun g9] g9 by blast
  have w10: "\<exists>g. insert_permissions feeder_rerun = Inr g
         \<and> permission_ids g = ids (permission_t (db (gw g)))"
    using pools_are_scans_of_the_whole_table [of feeder_rerun g10] g10 by blast
  have w11: "\<exists>g. insert_roles feeder_rerun = Inr g
         \<and> role_ids g = ids (role_t (db (gw g)))"
    using pools_are_scans_of_the_whole_table [of feeder_rerun g11] g11 by blast
  show ?thesis
    using w0 w1 w2 w3 w4 w5 w6 w7 w8 w9 w10 w11 by blast
qed

text \<open>
  Claim C1 as stated fails on a table that is not empty: with one address of an earlier
  run in the table and one address asked for, the pool of address identifiers holds both.
\<close>

theorem pool_holds_a_row_of_an_earlier_run:
  "ids (address_t (db (gw feeder_rerun))) = [1]
   \<and> size_f feeder_rerun = 1
   \<and> map_sum fst address_ids (insert_addresses feeder_rerun) = Inr [Some 1, Some 2]"
  by code_simp

section \<open>The roles of the staff\<close>

lemma choice_Inr:
  "choice xs e = (Inr x, e') \<Longrightarrow> x \<in> set xs"
  by (auto simp add: choice_def split_beta split: if_splits)

lemma update_role_loop_roles:
  assumes "update_role_loop todo f = Inr f'"
  shows "\<exists>g. member_t (db (gw f')) = map (\<lambda>(i, m, r). (i, m, g i r)) (member_t (db (gw f)))
     \<and> (\<forall>i r. (i \<in> set todo \<longrightarrow> (\<exists>x \<in> set (role_ids f). g i r = Some x))
              \<and> (i \<notin> set todo \<longrightarrow> g i r = r))"
  using assms
proof (induction todo arbitrary: f)
  case Nil
  then have "member_t (db (gw f')) = map (\<lambda>(i, m, r). (i, m, r)) (member_t (db (gw f)))"
    by simp
  then show ?case by (intro exI [of _ "\<lambda>i r. r"]) simp
next
  case (Cons memb rest)
  from Cons.prems obtain rl e f1 where
    rl: "choice (role_ids f) (ext f) = (Inr rl, e)"
    and f1: "query UPDATE_role_id (set_role memb rl) (f\<lparr>ext := e\<rparr>) = Inr f1"
    and rest: "update_role_loop rest f1 = Inr f'"
    by (auto simp add: then_do_Inr split: prod.splits sum.splits)
  from rl have pool: "rl \<in> set (role_ids f)"
    by (rule choice_Inr)
  from f1 have t1: "member_t (db (gw f1)) =
      map (\<lambda>(i, m, r). if i = memb then (i, m, Some rl) else (i, m, r)) (member_t (db (gw f)))"
    and r1: "role_ids f1 = role_ids f"
    by (auto simp add: query_Inr set_role_def)
  from Cons.IH [OF rest] obtain g where
    g: "member_t (db (gw f')) = map (\<lambda>(i, m, r). (i, m, g i r)) (member_t (db (gw f1)))"
    and gp: "\<forall>i r. (i \<in> set rest \<longrightarrow> (\<exists>x \<in> set (role_ids f1). g i r = Some x))
              \<and> (i \<notin> set rest \<longrightarrow> g i r = r)"
    by blast
  let ?g = "\<lambda>i r. g i (if i = memb then Some rl else r)"
  have rows: "member_t (db (gw f')) = map (\<lambda>(i, m, r). (i, m, ?g i r)) (member_t (db (gw f)))"
    by (simp add: g t1 split_beta)
  have given: "\<forall>i r. (i \<in> set (memb # rest) \<longrightarrow> (\<exists>x \<in> set (role_ids f). ?g i r = Some x))
              \<and> (i \<notin> set (memb # rest) \<longrightarrow> ?g i r = r)"
    using gp pool r1 by auto
  show ?case
    apply (rule exI [of _ ?g])
    using rows given by blast
qed

lemma staff_ids_iff:
  assumes "distinct (ids (member_t d))" and "(i, m, r) \<in> set (member_t d)"
  shows "i \<in> set (staff_ids d) \<longleftrightarrow> works_at_pizzeria_id m \<noteq> None"
proof
  assume "i \<in> set (staff_ids d)"
  then obtain m' r' where other: "(i, m', r') \<in> set (member_t d)"
    and staff: "works_at_pizzeria_id m' \<noteq> None"
    by (auto simp add: staff_ids_def ids_def)
  from assms(1) other assms(2) have "(m', r') = (m, r)"
    unfolding ids_def by (rule eq_key_imp_eq_value)
  with staff show "works_at_pizzeria_id m \<noteq> None" by simp
next
  assume "works_at_pizzeria_id m \<noteq> None"
  with assms(2) show "i \<in> set (staff_ids d)"
    by (force simp add: staff_ids_def ids_def)
qed

lemma update_members_role_roles:
  assumes "distinct (ids (member_t (db (gw f))))" and "update_members_role f = Inr f'"
  shows "list_all2
           (\<lambda>(i, m, r) (i', m', r'). i' = i \<and> m' = m
              \<and> (if works_at_pizzeria_id m \<noteq> None then \<exists>x \<in> set (role_ids f). r' = Some x
                  else r' = r))
           (member_t (db (gw f))) (member_t (db (gw f')))"
proof -
  from assms(2) obtain f0 where
    f0: "query SELECT_id_where_staff id f = Inr f0"
    and loop: "update_role_loop (staff_ids (db (gw f0))) f0 = Inr f'"
    by (auto simp add: update_members_role_def then_do_Inr)
  from f0 have same: "db (gw f0) = db (gw f)" "role_ids f0 = role_ids f"
    by (auto simp add: query_Inr)
  from update_role_loop_roles [OF loop] obtain g where
    g: "member_t (db (gw f')) = map (\<lambda>(i, m, r). (i, m, g i r)) (member_t (db (gw f)))"
    and gp: "\<forall>i r. (i \<in> set (staff_ids (db (gw f))) \<longrightarrow> (\<exists>x \<in> set (role_ids f). g i r = Some x))
              \<and> (i \<notin> set (staff_ids (db (gw f))) \<longrightarrow> g i r = r)"
    by (auto simp add: same)
  show ?thesis
    unfolding g list_all2_map2
  proof (rule list_all2_same [THEN iffD2], rule ballI)
    fix row assume row: "row \<in> set (member_t (db (gw f)))"
    obtain i m r where [simp]: "row = (i, m, r)" by (cases row)
    from row have "i \<in> set (staff_ids (db (gw f))) \<longleftrightarrow> works_at_pizzeria_id m \<noteq> None"
      using staff_ids_iff [OF assms(1), of i m r] by simp
    with gp show "(case row of (i, m, r) \<Rightarrow> \<lambda>(i', m', r'). i' = i \<and> m' = m
              \<and> (if works_at_pizzeria_id m \<noteq> None then \<exists>x \<in> set (role_ids f). r' = Some x
                  else r' = r)) (case row of (i, m, r) \<Rightarrow> (i, m, g i r))"
      by auto
  qed
qed

lemma choice_drawn:
  assumes "choice xs e = (Inr x, e')"
  shows "x = xs ! (draws e (drawn e) mod length xs)" and "e' = e\<lparr>drawn := Suc (drawn e)\<rparr>"
  using assms by (auto simp add: choice_def next_draw_def split: if_splits)

lemma update_role_loop_drawn:
  assumes "update_role_loop todo f = Inr f'" and "distinct todo"
  shows "member_t (db (gw f')) =
           map (\<lambda>(i, m, r). (i, m,
                  case map_of (zip todo (map (drawn_role f) [0..<length todo])) i of
                    None \<Rightarrow> r | Some x \<Rightarrow> Some x))
             (member_t (db (gw f)))
     \<and> drawn (ext f') = drawn (ext f) + length todo \<and> draws (ext f') = draws (ext f)"
  using assms
proof (induction todo arbitrary: f)
  case Nil
  then have "member_t (db (gw f')) = map (\<lambda>(i, m, r). (i, m, r)) (member_t (db (gw f)))"
    and "ext f' = ext f"
    by simp_all
  then show ?case by simp
next
  case (Cons memb rest)
  from Cons.prems(1) obtain rl e f1 where
    rl: "choice (role_ids f) (ext f) = (Inr rl, e)"
    and f1: "query UPDATE_role_id (set_role memb rl) (f\<lparr>ext := e\<rparr>) = Inr f1"
    and rest: "update_role_loop rest f1 = Inr f'"
    by (auto simp add: then_do_Inr split: prod.splits sum.splits)
  from Cons.prems(2) have fresh: "memb \<notin> set rest" and others: "distinct rest"
    by simp_all
  from choice_drawn [OF rl] have rl0: "rl = drawn_role f 0"
    and e: "e = (ext f)\<lparr>drawn := Suc (drawn (ext f))\<rparr>"
    by (simp_all add: drawn_role_def)
  from f1 have t1: "member_t (db (gw f1)) =
      map (\<lambda>(i, m, r). if i = memb then (i, m, Some rl) else (i, m, r)) (member_t (db (gw f)))"
    and r1: "role_ids f1 = role_ids f" and e1: "ext f1 = e"
    by (auto simp add: query_Inr set_role_def)
  have shift: "drawn_role f1 k = drawn_role f (Suc k)" for k
    by (simp add: drawn_role_def r1 e1 e)
  have none: "map_of (zip rest (map (drawn_role f1) [0..<length rest])) memb = None"
    using fresh by (simp add: map_of_zip_is_None)
  from Cons.IH [OF rest others] have
    t: "member_t (db (gw f')) =
           map (\<lambda>(i, m, r). (i, m,
                  case map_of (zip rest (map (drawn_role f1) [0..<length rest])) i of
                    None \<Rightarrow> r | Some x \<Rightarrow> Some x))
             (member_t (db (gw f1)))"
    and d: "drawn (ext f') = drawn (ext f1) + length rest" "draws (ext f') = draws (ext f1)"
    by simp_all
  have roles: "map (drawn_role f) [0..<length (memb # rest)] =
      rl # map (drawn_role f1) [0..<length rest]"
    by (simp add: map_upt_Suc shift rl0 del: upt_Suc)
  have "member_t (db (gw f')) =
           map (\<lambda>(i, m, r). (i, m,
                  case map_of (zip (memb # rest) (map (drawn_role f) [0..<length (memb # rest)])) i of
                    None \<Rightarrow> r | Some x \<Rightarrow> Some x))
             (member_t (db (gw f)))"
    unfolding roles t t1
    by (auto simp add: split_beta none split: option.splits
        dest: map_of_SomeD set_zip_leftD)
  moreover from d have "drawn (ext f') = drawn (ext f) + length (memb # rest)"
    and "draws (ext f') = draws (ext f)"
    by (simp_all add: e1 e)
  ultimately show ?case by blast
qed

lemma distinct_staff_ids: "distinct (ids (member_t d)) \<Longrightarrow> distinct (staff_ids d)"
  by (simp add: staff_ids_def ids_def distinct_map_filter)

lemma update_members_role_drawn:
  assumes "distinct (ids (member_t (db (gw f))))" and "update_members_role f = Inr f'"
  shows "(\<forall>k < length (staff_ids (db (gw f))). \<forall>m r.
            (staff_ids (db (gw f)) ! k, m, r) \<in> set (member_t (db (gw f')))
              \<longrightarrow> r = Some (drawn_role f k))
     \<and> drawn (ext f') = drawn (ext f) + length (staff_ids (db (gw f)))"
proof -
  let ?todo = "staff_ids (db (gw f))"
  from assms(2) obtain f0 where
    f0: "query SELECT_id_where_staff id f = Inr f0"
    and loop: "update_role_loop (staff_ids (db (gw f0))) f0 = Inr f'"
    by (auto simp add: update_members_role_def then_do_Inr)
  from f0 have same: "db (gw f0) = db (gw f)" "role_ids f0 = role_ids f" "ext f0 = ext f"
    by (auto simp add: query_Inr)
  then have roles: "drawn_role f0 = drawn_role f"
    by (simp add: drawn_role_def fun_eq_iff)
  have todo: "distinct ?todo"
    using assms(1) by (rule distinct_staff_ids)
  from update_role_loop_drawn [OF loop] todo have
    t: "member_t (db (gw f')) =
           map (\<lambda>(i, m, r). (i, m,
                  case map_of (zip ?todo (map (drawn_role f) [0..<length ?todo])) i of
                    None \<Rightarrow> r | Some x \<Rightarrow> Some x))
             (member_t (db (gw f)))"
    and d: "drawn (ext f') = drawn (ext f) + length ?todo"
    by (simp_all add: same roles)
  have "r = Some (drawn_role f k)"
    if k: "k < length ?todo" and row: "(?todo ! k, m, r) \<in> set (member_t (db (gw f')))"
    for k m r
  proof -
    have "map_of (zip ?todo (map (drawn_role f) [0..<length ?todo])) (?todo ! k)
        = Some (map (drawn_role f) [0..<length ?todo] ! k)"
      using todo k by (intro map_of_zip_nth) simp_all
    then have "map_of (zip ?todo (map (drawn_role f) [0..<length ?todo])) (?todo ! k)
        = Some (drawn_role f k)"
      using k by simp
    with row show ?thesis
      unfolding t by (auto simp add: split_beta)
  qed
  with d show ?thesis by blast
qed

text \<open>
  Claim C6. The role update reads the members that have a pizzeria and sends one
  \<^verbatim>\<open>UPDATE\<close> for each, with a role that \<^verbatim>\<open>random.choice\<close> takes in the pool of role
  identifiers. With a gateway that does not fail and a pool that is not empty it returns.
  When it returns, the member table has the same rows as before, identifiers being
  unique, with this difference only: every member with a pizzeria has a role of the
  pool, and every member without one has the role, or the absence of role, it had. The
  role is the one drawn: the staff member of rank \<open>k\<close> in the answer of the \<^verbatim>\<open>SELECT\<close>
  gets the element of the pool at the index that the outcome of rank \<open>k\<close> of the random
  source gives, the stage taking one outcome for each staff member and no other. That
  the outcomes fall evenly on the indices is what \<^verbatim>\<open>random.choice\<close> promises of the
  random source.
\<close>

theorem staff_members_get_a_role_of_the_pool:
  "(faults (gw f) = (\<lambda>n. None) \<and> role_ids f \<noteq> [] \<longrightarrow> (\<exists>f'. update_members_role f = Inr f'))
   \<and> (distinct (ids (member_t (db (gw f)))) \<and> update_members_role f = Inr f' \<longrightarrow>
        list_all2
           (\<lambda>(i, m, r) (i', m', r'). i' = i \<and> m' = m
              \<and> (if works_at_pizzeria_id m \<noteq> None then \<exists>x \<in> set (role_ids f). r' = Some x
                  else r' = r))
           (member_t (db (gw f))) (member_t (db (gw f'))))
   \<and> (distinct (ids (member_t (db (gw f)))) \<and> update_members_role f = Inr f' \<longrightarrow>
        (\<forall>k < length (staff_ids (db (gw f))). \<forall>m r.
            (staff_ids (db (gw f)) ! k, m, r) \<in> set (member_t (db (gw f')))
              \<longrightarrow> r = Some (drawn_role f k))
        \<and> drawn (ext f') = drawn (ext f) + length (staff_ids (db (gw f))))"
  using update_members_role_no_faults [of f] update_members_role_roles [of f f']
    update_members_role_drawn [of f f'] by blast

lemma staff_run:
  "map_sum fst (\<lambda>f. map (snd \<circ> snd) (member_t (db (gw f)))) (update_members_role feeder_staff)
     = Inr [Some 2, None]"
  by code_simp

theorem staff_members_get_a_role_of_the_pool_witness:
  "faults (gw feeder_staff) = (\<lambda>n. None) \<and> role_ids feeder_staff \<noteq> []
   \<and> distinct (ids (member_t (db (gw feeder_staff))))
   \<and> staff_ids (db (gw feeder_staff)) = [1]
   \<and> drawn_role feeder_staff 0 = 2
   \<and> (\<exists>f'. update_members_role feeder_staff = Inr f'
         \<and> map (snd \<circ> snd) (member_t (db (gw f'))) = [Some 2, None]
         \<and> list_all2
           (\<lambda>(i, m, r) (i', m', r'). i' = i \<and> m' = m
              \<and> (if works_at_pizzeria_id m \<noteq> None
                  then \<exists>x \<in> set (role_ids feeder_staff). r' = Some x
                  else r' = r))
           (member_t (db (gw feeder_staff))) (member_t (db (gw f')))
         \<and> (\<forall>m r. (1, m, r) \<in> set (member_t (db (gw f'))) \<longrightarrow> r = Some 2)
         \<and> drawn (ext f') = 1)"
proof -
  have pre: "faults (gw feeder_staff) = (\<lambda>n. None)" "role_ids feeder_staff \<noteq> []"
    "distinct (ids (member_t (db (gw feeder_staff))))"
    by (simp_all add: feeder_staff_def DatabaseFeeder_def gateway0_def empty_database_def
        ids_def)
  have staff: "staff_ids (db (gw feeder_staff)) = [1]"
    by code_simp
  have role: "drawn_role feeder_staff 0 = 2"
    by code_simp
  have start: "drawn (ext feeder_staff) = 0"
    by code_simp
  have "\<exists>f'. update_members_role feeder_staff = Inr f'"
    by (rule staff_members_get_a_role_of_the_pool [of feeder_staff, THEN conjunct1, THEN mp])
       (simp add: pre)
  then obtain f' where f': "update_members_role feeder_staff = Inr f'" ..
  have roles: "map (snd \<circ> snd) (member_t (db (gw f'))) = [Some 2, None]"
    using staff_run by (simp add: f')
  have rows: "list_all2
           (\<lambda>(i, m, r) (i', m', r'). i' = i \<and> m' = m
              \<and> (if works_at_pizzeria_id m \<noteq> None
                  then \<exists>x \<in> set (role_ids feeder_staff). r' = Some x
                  else r' = r))
           (member_t (db (gw feeder_staff))) (member_t (db (gw f')))"
    by (rule staff_members_get_a_role_of_the_pool [of feeder_staff f', THEN conjunct2,
          THEN conjunct1, THEN mp])
       (simp add: pre f')
  have "(\<forall>k < length (staff_ids (db (gw feeder_staff))). \<forall>m r.
            (staff_ids (db (gw feeder_staff)) ! k, m, r) \<in> set (member_t (db (gw f')))
              \<longrightarrow> r = Some (drawn_role feeder_staff k))
        \<and> drawn (ext f') = drawn (ext feeder_staff)
            + length (staff_ids (db (gw feeder_staff)))"
    by (rule staff_members_get_a_role_of_the_pool [of feeder_staff f', THEN conjunct2,
          THEN conjunct2, THEN mp])
       (simp add: pre f')
  then have drawn: "\<forall>m r. (1, m, r) \<in> set (member_t (db (gw f'))) \<longrightarrow> r = Some 2"
    and count: "drawn (ext f') = 1"
    by (simp_all add: staff role start)
  from pre staff role f' roles rows drawn count show ?thesis
    by (intro conjI exI [of _ f']) assumption+
qed

section \<open>Recipes, products and catalog items\<close>

lemma map_try_each_pair:
  assumes "\<And>x e y e'. f x e = (Inr y, e') \<Longrightarrow> g y = h x"
  shows "try_each f xs e = (Inr ys, e'') \<Longrightarrow> map g ys = map h xs"
  using assms
proof (induction xs arbitrary: e ys e'')
  case Nil
  then show ?case by simp
next
  case (Cons x xs)
  from Cons.prems(1) obtain y e1 zs where
    y: "f x e = (Inr y, e1)" and zs: "try_each f xs e1 = (Inr zs, e'')" and ys: "ys = y # zs"
    by (auto split: prod.splits sum.splits)
  from Cons.prems(2) [OF y] Cons.IH [OF zs Cons.prems(2)] ys show ?case
    by simp
qed

lemma map_try_each:
  assumes "\<And>x e y e'. f x e = (Inr y, e') \<Longrightarrow> g y = h x"
    and "fst (try_each f xs e) = Inr ys"
  shows "map g ys = map h xs"
  using assms(2) map_try_each_pair [of f g h xs e ys, OF assms(1)]
  by (cases "try_each f xs e") auto

lemma catalog_items_fields:
  assumes "fst (catalog_items d e) = Inr items"
  shows "map CatalogItem.name items = map fst d"
    and "map CatalogItem.recipe_id items = map (\<lambda>(n, i). Some i) d"
    and "map CatalogItem.product_id items = map (\<lambda>x. None) d"
  using assms unfolding catalog_items_def
  by (rule map_try_each [rotated],
      auto simp add: FakeCatalogItem_def split_beta Let_def)+

lemma recipes_names: "map Recipe.name (fst (recipes e)) = recipe_names"
proof -
  have "map Recipe.name (fst (yield_each FakeRecipe xs e)) = map (\<lambda>n. n) xs" for xs
    by (rule map_yield_each) (simp add: FakeRecipe_def split_beta Let_def)
  then show ?thesis by (simp add: recipes_def)
qed

lemma products_names: "map Product.name (fst (products e)) = product_names"
proof -
  have "map Product.name (fst (yield_each FakeProduct xs e)) = map (\<lambda>n. n) xs" for xs
    by (rule map_yield_each) (simp add: FakeProduct_def split_beta Let_def)
  then show ?thesis by (simp add: products_def)
qed

lemma dict_set_new: "k \<notin> fst ` set d \<Longrightarrow> dict_set k v d = d @ [(k, v)]"
  by (induction d) auto

lemma dict_of_distinct: "distinct (map fst items) \<Longrightarrow> dict_of items = items"
proof (induction items rule: rev_induct)
  case Nil
  show ?case by (simp add: dict_of_def)
next
  case (snoc item items)
  obtain k v where item: "item = (k, v)" by (cases item)
  from snoc.prems have "distinct (map fst items)" and "k \<notin> fst ` set items"
    by (auto simp add: item)
  with snoc.IH show ?case
    by (simp add: dict_of_def item dict_set_new)
qed

lemma distinct_recipe_names: "distinct recipe_names"
  by (simp add: recipe_names_def e_acute_def e_grave_def a_grave_def a_circ_def i_trema_def)

lemma map_zip_snd: "length xs = length ys \<Longrightarrow> map (\<lambda>(i, r). h r) (zip xs ys) = map h ys"
  by (induction xs ys rule: list_induct2) simp_all

lemma insert_recipes_fresh:
  assumes "recipe_t (db (gw f)) = []" and "insert_recipes f = Inr f'"
  shows "length (recipe_t (db (gw f'))) = 23
     \<and> map (\<lambda>(i, r). Recipe.name r) (recipe_t (db (gw f'))) = recipe_names
     \<and> recipes_pool f' = map (\<lambda>(i, r). (Recipe.name r, i)) (recipe_t (db (gw f')))"
proof -
  let ?rs = "fst (recipes (ext f))"
  let ?t = "fold add_row ?rs []"
  from insert_recipes_Inr [OF assms(2)] assms(1)
  have t: "recipe_t (db (gw f')) = ?t"
    and pool: "recipes_pool f' = dict_of (map (\<lambda>(i, r). (Recipe.name r, i)) ?t)"
    by simp_all
  have names: "map (\<lambda>(i, r). Recipe.name r) ?t = recipe_names"
    by (simp add: fold_add_row map_zip_snd recipes_names)
  have "map fst (map (\<lambda>(i, r). (Recipe.name r, i)) ?t) = map (\<lambda>(i, r). Recipe.name r) ?t"
    by (simp add: split_beta)
  then have "distinct (map fst (map (\<lambda>(i, r). (Recipe.name r, i)) ?t))"
    by (simp only: names distinct_recipe_names)
  then have "dict_of (map (\<lambda>(i, r). (Recipe.name r, i)) ?t) = map (\<lambda>(i, r). (Recipe.name r, i)) ?t"
    by (rule dict_of_distinct)
  with t pool names show ?thesis
    by (simp add: fold_add_row length_recipes)
qed

lemma insert_catalog_items_rows:
  assumes "insert_catalog_items f = Inr f'"
  shows "\<exists>new. catalog_item_t (db (gw f')) = catalog_item_t (db (gw f)) @ new
     \<and> map (\<lambda>(i, r). CatalogItem.name r) new = map fst (recipes_pool f)
     \<and> map (\<lambda>(i, r). CatalogItem.recipe_id r) new = map (\<lambda>(n, i). Some i) (recipes_pool f)
     \<and> map (\<lambda>(i, r). CatalogItem.product_id r) new = map (\<lambda>x. None) (recipes_pool f)"
proof -
  from insert_catalog_items_Inr [OF assms] obtain rs where
    rs: "fst (catalog_items (recipes_pool f) (ext f)) = Inr rs"
    and t: "catalog_item_t (db (gw f')) = fold add_row rs (catalog_item_t (db (gw f)))"
    by auto
  show ?thesis
    unfolding t fold_add_row
    by (intro exI conjI, rule refl) (simp_all add: map_zip_snd catalog_items_fields [OF rs])
qed

text \<open>
  Claim C2, as amended. The list of recipe names in the source has 23 entries, not 22.
  The recipes generator yields 23 recipes and the products generator 35 products, with
  the names of the two lists in order; the catalog-item generator never fails and yields
  one item for each entry of the dictionary it is given, with the name and the recipe
  identifier of the entry and no product. A run that finds the recipe table empty leaves
  23 recipe rows and a dictionary with one entry for each of them, and the catalog-item
  stage inserts one row for each entry of the dictionary: 23 catalog items, one for each
  recipe.
\<close>

theorem recipes_products_catalog_items_counts:
  "length (fst (recipes e)) = 23 \<and> map Recipe.name (fst (recipes e)) = recipe_names
   \<and> length (fst (products e)) = 35 \<and> map Product.name (fst (products e)) = product_names
   \<and> (\<exists>items. fst (catalog_items d e) = Inr items \<and> length items = length d
         \<and> map CatalogItem.name items = map fst d
         \<and> map CatalogItem.recipe_id items = map (\<lambda>(n, i). Some i) d
         \<and> map CatalogItem.product_id items = map (\<lambda>x. None) d)
   \<and> (recipe_t (db (gw f)) = [] \<and> insert_recipes f = Inr f' \<longrightarrow>
         length (recipe_t (db (gw f'))) = 23
         \<and> map (\<lambda>(i, r). Recipe.name r) (recipe_t (db (gw f'))) = recipe_names
         \<and> recipes_pool f' = map (\<lambda>(i, r). (Recipe.name r, i)) (recipe_t (db (gw f'))))
   \<and> (insert_catalog_items f = Inr f' \<longrightarrow>
         (\<exists>new. catalog_item_t (db (gw f')) = catalog_item_t (db (gw f)) @ new
            \<and> map (\<lambda>(i, r). CatalogItem.name r) new = map fst (recipes_pool f)
            \<and> map (\<lambda>(i, r). CatalogItem.recipe_id r) new
                 = map (\<lambda>(n, i). Some i) (recipes_pool f)
            \<and> map (\<lambda>(i, r). CatalogItem.product_id r) new
                 = map (\<lambda>x. None) (recipes_pool f)))"
proof -
  obtain items where items: "fst (catalog_items d e) = Inr items"
    using catalog_items_ok by blast
  have "\<exists>items. fst (catalog_items d e) = Inr items \<and> length items = length d
         \<and> map CatalogItem.name items = map fst d
         \<and> map CatalogItem.recipe_id items = map (\<lambda>(n, i). Some i) d
         \<and> map CatalogItem.product_id items = map (\<lambda>x. None) d"
    using items length_catalog_items [OF items] catalog_items_fields [OF items] by blast
  then show ?thesis
    using insert_recipes_fresh [of f f'] insert_catalog_items_rows [of f f']
    by (simp add: length_recipes recipes_names length_products products_names)
qed

theorem recipes_products_catalog_items_counts_witness:
  "recipe_t (db (gw feeder_one)) = []
   \<and> (\<exists>f'. insert_recipes feeder_one = Inr f' \<and> length (recipe_t (db (gw f'))) = 23
         \<and> recipes_pool f' = map (\<lambda>(i, r). (Recipe.name r, i)) (recipe_t (db (gw f'))))
   \<and> (\<exists>f' new. insert_catalog_items feeder_rerun = Inr f'
         \<and> catalog_item_t (db (gw f')) = catalog_item_t (db (gw feeder_rerun)) @ new
         \<and> map (\<lambda>(i, r). CatalogItem.recipe_id r) new
              = map (\<lambda>(n, i). Some i) (recipes_pool feeder_rerun))"
proof -
  have empty: "recipe_t (db (gw feeder_one)) = []"
    and nf: "faults (gw feeder_one) = (\<lambda>n. None)"
    by (simp_all add: feeder_one_def DatabaseFeeder_def gateway0_def empty_database_def)
  have nf': "faults (gw feeder_rerun) = (\<lambda>n. None)"
    by (simp add: feeder_rerun_def DatabaseFeeder_def gateway0_def)
  obtain f1 where f1: "insert_recipes feeder_one = Inr f1"
    using insert_recipes_no_faults [OF nf] by blast
  obtain f2 where f2: "insert_catalog_items feeder_rerun = Inr f2"
    using insert_catalog_items_no_faults [OF nf'] by blast
  have one: "\<exists>f'. insert_recipes feeder_one = Inr f' \<and> length (recipe_t (db (gw f'))) = 23
         \<and> recipes_pool f' = map (\<lambda>(i, r). (Recipe.name r, i)) (recipe_t (db (gw f')))"
    using recipes_products_catalog_items_counts [of ext0 "[]" feeder_one f1] empty f1 by blast
  have two: "\<exists>f' new. insert_catalog_items feeder_rerun = Inr f'
         \<and> catalog_item_t (db (gw f')) = catalog_item_t (db (gw feeder_rerun)) @ new
         \<and> map (\<lambda>(i, r). CatalogItem.recipe_id r) new
              = map (\<lambda>(n, i). Some i) (recipes_pool feeder_rerun)"
    using recipes_products_catalog_items_counts [of ext0 "[]" feeder_rerun f2] f2 by blast
  from empty one two show ?thesis by (intro conjI)
qed

text \<open>Claim C2 as stated fails: the recipes are 23.\<close>

theorem recipes_are_not_22:
  "length (fst (recipes ext0)) = 23 \<and> length (fst (recipes ext0)) \<noteq> 22"
  by (simp add: length_recipes)

section \<open>The association populator\<close>

lemma insert_relation_Inr:
  "insert_relation rel k change f = Inr f' \<Longrightarrow>
     f' = f\<lparr>gw := (gw f)\<lparr>issued := issued (gw f) @ [INSERT_relation rel],
                         db := change (db (gw f))\<rparr>\<rparr>"
  by (auto simp add: insert_relation_def on_gateway_def execute_unique_def Let_def
      split: option.splits if_splits)

lemma insert_relation_Inl:
  "insert_relation rel k change f = Inl (err, f') \<Longrightarrow>
     f' = f\<lparr>gw := (gw f)\<lparr>issued := issued (gw f) @ [INSERT_relation rel]\<rparr>\<rparr>
     \<and> (\<exists>e. err = DBError e)"
  by (auto simp add: insert_relation_def on_gateway_def execute_unique_def Let_def
      split: option.splits if_splits)

lemma generator_IndexError:
  "fst (has_permission_to a b e) = Inl err \<Longrightarrow> err = IndexError"
  "fst (contains_item a b e) = Inl err \<Longrightarrow> err = IndexError"
  "fst (requires_product a b e) = Inl err \<Longrightarrow> err = IndexError"
  "fst (has_product_in_stock a b e) = Inl err \<Longrightarrow> err = IndexError"
  "fst (has_keyword a b e) = Inl err \<Longrightarrow> err = IndexError"
  by (auto simp add: has_permission_to_def contains_item_def requires_product_def
      has_product_in_stock_def has_keyword_def and_then_def choice_def split_beta Let_def
      split: if_splits)

lemma insert_has_permission_to_ok:
  assumes "insert_has_permission_to f = Inr f'"
  shows "issued (gw f') = issued (gw f) @ [INSERT_relation R_has_permission_to]
     \<and> size_f f' = size_f f
     \<and> (\<forall>r. row_count r (db (gw f')) =
              row_count r (db (gw f)) + (if r = R_has_permission_to then 1 else 0))"
  using assms
  by (auto simp add: insert_has_permission_to_def row_count_def
      split: prod.splits sum.splits relation.splits dest!: insert_relation_Inr)

lemma insert_has_permission_to_ko:
  assumes "insert_has_permission_to f = Inl (DBError e, f')"
  shows "issued (gw f') = issued (gw f) @ [INSERT_relation R_has_permission_to]
     \<and> size_f f' = size_f f \<and> db (gw f') = db (gw f)"
  using assms generator_IndexError(1) [of "role_ids f" "permission_ids f" "ext f"]
  by (auto simp add: insert_has_permission_to_def
      split: prod.splits sum.splits dest!: insert_relation_Inl)

lemma insert_contains_item_ok:
  assumes "insert_contains_item f = Inr f'"
  shows "issued (gw f') = issued (gw f) @ [INSERT_relation R_contains_item]
     \<and> size_f f' = size_f f
     \<and> (\<forall>r. row_count r (db (gw f')) =
              row_count r (db (gw f)) + (if r = R_contains_item then 1 else 0))"
  using assms
  by (auto simp add: insert_contains_item_def row_count_def
      split: prod.splits sum.splits relation.splits dest!: insert_relation_Inr)

lemma insert_contains_item_ko:
  assumes "insert_contains_item f = Inl (DBError e, f')"
  shows "issued (gw f') = issued (gw f) @ [INSERT_relation R_contains_item]
     \<and> size_f f' = size_f f \<and> db (gw f') = db (gw f)"
  using assms generator_IndexError(2) [of "taken_order_ids f" "catalog_item_ids f" "ext f"]
  by (auto simp add: insert_contains_item_def
      split: prod.splits sum.splits dest!: insert_relation_Inl)

lemma insert_requires_product_ok:
  assumes "insert_requires_product f = Inr f'"
  shows "issued (gw f') = issued (gw f) @ [INSERT_relation R_requires_product]
     \<and> size_f f' = size_f f
     \<and> (\<forall>r. row_count r (db (gw f')) =
              row_count r (db (gw f)) + (if r = R_requires_product then 1 else 0))"
  using assms
  by (auto simp add: insert_requires_product_def row_count_def
      split: prod.splits sum.splits relation.splits dest!: insert_relation_Inr)

lemma insert_requires_product_ko:
  assumes "insert_requires_product f = Inl (DBError e, f')"
  shows "issued (gw f') = issued (gw f) @ [INSERT_relation R_requires_product]
     \<and> size_f f' = size_f f \<and> db (gw f') = db (gw f)"
  using assms generator_IndexError(3) [of "map snd (recipes_pool f)" "product_ids f" "ext f"]
  by (auto simp add: insert_requires_product_def
      split: prod.splits sum.splits dest!: insert_relation_Inl)

lemma insert_has_product_in_stock_ok:
  assumes "insert_has_product_in_stock f = Inr f'"
  shows "issued (gw f') = issued (gw f) @ [INSERT_relation R_has_product_in_stock]
     \<and> size_f f' = size_f f
     \<and> (\<forall>r. row_count r (db (gw f')) =
              row_count r (db (gw f)) + (if r = R_has_product_in_stock then 1 else 0))"
  using assms
  by (auto simp add: insert_has_product_in_stock_def row_count_def
      split: prod.splits sum.splits relation.splits dest!: insert_relation_Inr)

lemma insert_has_product_in_stock_ko:
  assumes "insert_has_product_in_stock f = Inl (DBError e, f')"
  shows "issued (gw f') = issued (gw f) @ [INSERT_relation R_has_product_in_stock]
     \<and> size_f f' = size_f f \<and> db (gw f') = db (gw f)"
  using assms generator_IndexError(4) [of "pizzeria_ids f" "product_ids f" "ext f"]
  by (auto simp add: insert_has_product_in_stock_def
      split: prod.splits sum.splits dest!: insert_relation_Inl)

lemma insert_has_keyword_ok:
  assumes "insert_has_keyword f = Inr f'"
  shows "issued (gw f') = issued (gw f) @ [INSERT_relation R_has_keyword]
     \<and> size_f f' = size_f f
     \<and> (\<forall>r. row_count r (db (gw f')) =
              row_count r (db (gw f)) + (if r = R_has_keyword then 1 else 0))"
  using assms
  by (auto simp add: insert_has_keyword_def row_count_def
      split: prod.splits sum.splits relation.splits dest!: insert_relation_Inr)

lemma insert_has_keyword_ko:
  assumes "insert_has_keyword f = Inl (DBError e, f')"
  shows "issued (gw f') = issued (gw f) @ [INSERT_relation R_has_keyword]
     \<and> size_f f' = size_f f \<and> db (gw f') = db (gw f)"
  using assms generator_IndexError(5) [of "catalog_item_ids f" "keyword_ids f" "ext f"]
  by (auto simp add: insert_has_keyword_def
      split: prod.splits sum.splits dest!: insert_relation_Inl)

lemma attempt_Inr:
  "attempt callback f = Inr f' \<Longrightarrow>
     callback f = Inr f' \<or> (\<exists>v. callback f = Inl (DBError (IntegrityError v), f'))"
  by (auto simp add: attempt_def split: sum.splits prod.splits error.splits dberror.splits)

lemma attempt_Inl:
  "attempt callback f = Inl (err, f') \<Longrightarrow>
     callback f = Inl (err, f') \<and> (\<forall>v. err \<noteq> DBError (IntegrityError v))"
  by (auto simp add: attempt_def split: sum.splits prod.splits error.splits dberror.splits)

lemma attempt_caught:
  "callback f = Inl (DBError (IntegrityError v), f') \<Longrightarrow> attempt callback f = Inr f'"
  by (simp add: attempt_def)

lemma attempt_raised:
  "callback f = Inl (err, f') \<Longrightarrow> \<forall>v. err \<noteq> DBError (IntegrityError v) \<Longrightarrow>
     attempt callback f = Inl (err, f')"
  by (auto simp add: attempt_def split: error.splits dberror.splits)

lemma repeat_attempt_log:
  assumes ok: "\<And>f f'. callback f = Inr f' \<Longrightarrow>
        issued (gw f') = issued (gw f) @ [st] \<and> size_f f' = size_f f
        \<and> (\<forall>r. row_count r (db (gw f')) = row_count r (db (gw f)) + (if r = rel then 1 else 0))"
    and ko: "\<And>f f' e. callback f = Inl (DBError e, f') \<Longrightarrow>
        issued (gw f') = issued (gw f) @ [st] \<and> size_f f' = size_f f
        \<and> db (gw f') = db (gw f)"
    and run: "repeat n (attempt callback) f = Inr f'"
  shows "issued (gw f') = issued (gw f) @ replicate n st \<and> size_f f' = size_f f
     \<and> (\<forall>r. row_count r (db (gw f)) \<le> row_count r (db (gw f'))
            \<and> row_count r (db (gw f')) \<le> row_count r (db (gw f)) + (if r = rel then n else 0))"
  using run
proof (induction n arbitrary: f)
  case 0
  then show ?case by simp
next
  case (Suc n)
  from Suc.prems obtain f1 where
    first: "attempt callback f = Inr f1" and rest: "repeat n (attempt callback) f1 = Inr f'"
    by (auto simp add: then_do_Inr)
  from attempt_Inr [OF first] ok [of f f1] ko [of f _ f1]
  have step: "issued (gw f1) = issued (gw f) @ [st] \<and> size_f f1 = size_f f
     \<and> (\<forall>r. row_count r (db (gw f)) \<le> row_count r (db (gw f1))
            \<and> row_count r (db (gw f1)) \<le> row_count r (db (gw f)) + (if r = rel then 1 else 0))"
    by auto
  note ih = Suc.IH [OF rest]
  have rows: "row_count r (db (gw f)) \<le> row_count r (db (gw f'))
            \<and> row_count r (db (gw f')) \<le> row_count r (db (gw f))
                 + (if r = rel then Suc n else 0)" for r
    using ih [THEN conjunct2, THEN conjunct2, THEN spec, of r]
      step [THEN conjunct2, THEN conjunct2, THEN spec, of r]
    by (simp split: if_splits)
  from ih step rows show ?case
    by (simp add: replicate_append_same)
qed

lemma repeat_attempt_Inl:
  "repeat n (attempt callback) f = Inl (err, f') \<Longrightarrow> \<forall>v. err \<noteq> DBError (IntegrityError v)"
proof (induction n arbitrary: f)
  case 0
  then show ?case by simp
next
  case (Suc n)
  then show ?case
    by (cases "attempt callback f") (auto simp add: then_do_def dest: attempt_Inl)
qed

lemma for_callbacks_Inl:
  "for_callbacks cbs f = Inl (err, f') \<Longrightarrow> \<forall>v. err \<noteq> DBError (IntegrityError v)"
proof (induction cbs arbitrary: f)
  case Nil
  then show ?case by simp
next
  case (Cons cb cbs)
  then show ?case
    by (cases "repeat (nat (size_f f)) (attempt cb) f")
       (auto simp add: then_do_def dest: repeat_attempt_Inl)
qed

lemma insert_relations_many_to_many_log:
  assumes "insert_relations_many_to_many f = Inr f'"
  shows "issued (gw f') = issued (gw f)
           @ concat (map (\<lambda>rel. replicate (nat (size_f f)) (INSERT_relation rel))
               [R_has_permission_to, R_contains_item, R_requires_product,
                R_has_product_in_stock, R_has_keyword])
     \<and> (\<forall>rel. row_count rel (db (gw f)) \<le> row_count rel (db (gw f'))
            \<and> row_count rel (db (gw f')) \<le> row_count rel (db (gw f)) + nat (size_f f))"
proof -
  from assms obtain f1 f2 f3 f4 where
    r1: "repeat (nat (size_f f)) (attempt insert_has_permission_to) f = Inr f1"
    and r2: "repeat (nat (size_f f1)) (attempt insert_contains_item) f1 = Inr f2"
    and r3: "repeat (nat (size_f f2)) (attempt insert_requires_product) f2 = Inr f3"
    and r4: "repeat (nat (size_f f3)) (attempt insert_has_product_in_stock) f3 = Inr f4"
    and r5: "repeat (nat (size_f f4)) (attempt insert_has_keyword) f4 = Inr f'"
    by (auto simp add: insert_relations_many_to_many_def callbacks_def then_do_Inr)
  have l1: "issued (gw f1) = issued (gw f) @ replicate (nat (size_f f)) (INSERT_relation R_has_permission_to)
     \<and> size_f f1 = size_f f
     \<and> (\<forall>r. row_count r (db (gw f)) \<le> row_count r (db (gw f1))
            \<and> row_count r (db (gw f1)) \<le> row_count r (db (gw f))
                 + (if r = R_has_permission_to then nat (size_f f) else 0))"
    using r1 by (rule repeat_attempt_log [rotated 2]) (erule insert_has_permission_to_ok insert_has_permission_to_ko)+
  have l2: "issued (gw f2) = issued (gw f1) @ replicate (nat (size_f f1)) (INSERT_relation R_contains_item)
     \<and> size_f f2 = size_f f1
     \<and> (\<forall>r. row_count r (db (gw f1)) \<le> row_count r (db (gw f2))
            \<and> row_count r (db (gw f2)) \<le> row_count r (db (gw f1))
                 + (if r = R_contains_item then nat (size_f f1) else 0))"
    using r2 by (rule repeat_attempt_log [rotated 2]) (erule insert_contains_item_ok insert_contains_item_ko)+
  have l3: "issued (gw f3) = issued (gw f2) @ replicate (nat (size_f f2)) (INSERT_relation R_requires_product)
     \<and> size_f f3 = size_f f2
     \<and> (\<forall>r. row_count r (db (gw f2)) \<le> row_count r (db (gw f3))
            \<and> row_count r (db (gw f3)) \<le> row_count r (db (gw f2))
                 + (if r = R_requires_product then nat (size_f f2) else 0))"
    using r3 by (rule repeat_attempt_log [rotated 2]) (erule insert_requires_product_ok insert_requires_product_ko)+
  have l4: "issued (gw f4) = issued (gw f3) @ replicate (nat (size_f f3)) (INSERT_relation R_has_product_in_stock)
     \<and> size_f f4 = size_f f3
     \<and> (\<forall>r. row_count r (db (gw f3)) \<le> row_count r (db (gw f4))
            \<and> row_count r (db (gw f4)) \<le> row_count r (db (gw f3))
                 + (if r = R_has_product_in_stock then nat (size_f f3) else 0))"
    using r4 by (rule repeat_attempt_log [rotated 2]) (erule insert_has_product_in_stock_ok insert_has_product_in_stock_ko)+
  have l5: "issued (gw f') = issued (gw f4) @ replicate (nat (size_f f4)) (INSERT_relation R_has_keyword)
     \<and> size_f f' = size_f f4
     \<and> (\<forall>r. row_count r (db (gw f4)) \<le> row_count r (db (gw f'))
            \<and> row_count r (db (gw f')) \<le> row_count r (db (gw f4))
                 + (if r = R_has_keyword then nat (size_f f4) else 0))"
    using r5 by (rule repeat_attempt_log [rotated 2]) (erule insert_has_keyword_ok insert_has_keyword_ko)+
  have sizes: "size_f f1 = size_f f" "size_f f2 = size_f f" "size_f f3 = size_f f"
    "size_f f4 = size_f f"
    using l1 l2 l3 l4 by simp_all
  have log: "issued (gw f') = issued (gw f)
           @ concat (map (\<lambda>rel. replicate (nat (size_f f)) (INSERT_relation rel))
               [R_has_permission_to, R_contains_item, R_requires_product,
                R_has_product_in_stock, R_has_keyword])"
    using l1 l2 l3 l4 l5 by (simp add: sizes)
  have rows: "row_count rel (db (gw f)) \<le> row_count rel (db (gw f'))
            \<and> row_count rel (db (gw f')) \<le> row_count rel (db (gw f)) + nat (size_f f)" for rel
  proof -
    have "row_count rel (db (gw f)) \<le> row_count rel (db (gw f1))"
      "row_count rel (db (gw f1)) \<le> row_count rel (db (gw f2))"
      "row_count rel (db (gw f2)) \<le> row_count rel (db (gw f3))"
      "row_count rel (db (gw f3)) \<le> row_count rel (db (gw f4))"
      "row_count rel (db (gw f4)) \<le> row_count rel (db (gw f'))"
      using l1 l2 l3 l4 l5 by blast+
    moreover have
      "row_count rel (db (gw f1)) \<le> row_count rel (db (gw f))
          + (if rel = R_has_permission_to then nat (size_f f) else 0)"
      "row_count rel (db (gw f2)) \<le> row_count rel (db (gw f1))
          + (if rel = R_contains_item then nat (size_f f) else 0)"
      "row_count rel (db (gw f3)) \<le> row_count rel (db (gw f2))
          + (if rel = R_requires_product then nat (size_f f) else 0)"
      "row_count rel (db (gw f4)) \<le> row_count rel (db (gw f3))
          + (if rel = R_has_product_in_stock then nat (size_f f) else 0)"
      "row_count rel (db (gw f')) \<le> row_count rel (db (gw f4))
          + (if rel = R_has_keyword then nat (size_f f) else 0)"
      using l1 l2 l3 l4 l5 sizes by metis+
    ultimately show ?thesis
      by (cases rel) simp_all
  qed
  from log rows show ?thesis by blast
qed

lemma first_fault_propagates:
  assumes "0 < size_f f" and "role_ids f \<noteq> []" and "permission_ids f \<noteq> []"
    and "faults (gw f) (length (issued (gw f))) = Some OperationalError"
  shows "\<exists>f1. insert_relations_many_to_many f = Inl (DBError OperationalError, f1)"
proof -
  from assms(1) obtain k where k: "nat (size_f f) = Suc k"
    by (cases "nat (size_f f)") auto
  have "\<exists>f1. insert_has_permission_to f = Inl (DBError OperationalError, f1)"
    using assms(2-4)
    by (simp add: insert_has_permission_to_def has_permission_to_def and_then_def choice_def
        split_beta insert_relation_def on_gateway_def execute_unique_def Let_def)
  then obtain f1 where "insert_has_permission_to f = Inl (DBError OperationalError, f1)" ..
  then have "attempt insert_has_permission_to f = Inl (DBError OperationalError, f1)"
    by (simp add: attempt_def)
  then show ?thesis
    by (simp add: insert_relations_many_to_many_def callbacks_def k then_do_def)
qed

text \<open>
  Claim C5, as amended. The populator runs its five callbacks in turn, each
  \<open>size\<close> times. When it returns, it has sent exactly \<open>size\<close> insertions for each
  relation (none for a negative size), in the order of the callbacks, and each association
  table holds its earlier rows and at most \<open>size\<close> more. The \<^verbatim>\<open>except\<close> clause names
  the class \<^verbatim>\<open>IntegrityError\<close>: an integrity error of any kind raised in an attempt, a
  uniqueness conflict or another violated constraint, is dropped and the loop goes on, so
  no integrity error ever leaves the populator; every other exception leaves it at once,
  as the one of a gateway that fails otherwise on the first statement does.
\<close>

theorem association_populator_attempts:
  "(insert_relations_many_to_many f = Inr f' \<longrightarrow>
      issued (gw f') = issued (gw f)
           @ concat (map (\<lambda>rel. replicate (nat (size_f f)) (INSERT_relation rel))
               [R_has_permission_to, R_contains_item, R_requires_product,
                R_has_product_in_stock, R_has_keyword])
      \<and> (\<forall>rel. row_count rel (db (gw f)) \<le> row_count rel (db (gw f'))
            \<and> row_count rel (db (gw f')) \<le> row_count rel (db (gw f)) + nat (size_f f)))
   \<and> (insert_relations_many_to_many f = Inl (err, f') \<longrightarrow>
        (\<forall>v. err \<noteq> DBError (IntegrityError v)))
   \<and> (callback f = Inl (DBError (IntegrityError v), f') \<longrightarrow> attempt callback f = Inr f')
   \<and> (callback f = Inl (err, f') \<and> (\<forall>v. err \<noteq> DBError (IntegrityError v)) \<longrightarrow>
        attempt callback f = Inl (err, f')
        \<and> repeat (Suc n) (attempt callback) f = Inl (err, f'))
   \<and> (0 < size_f f \<and> role_ids f \<noteq> [] \<and> permission_ids f \<noteq> []
        \<and> faults (gw f) (length (issued (gw f))) = Some OperationalError \<longrightarrow>
        (\<exists>f1. insert_relations_many_to_many f = Inl (DBError OperationalError, f1)))"
proof (intro conjI impI)
  assume "insert_relations_many_to_many f = Inr f'"
  then show "issued (gw f') = issued (gw f)
           @ concat (map (\<lambda>rel. replicate (nat (size_f f)) (INSERT_relation rel))
               [R_has_permission_to, R_contains_item, R_requires_product,
                R_has_product_in_stock, R_has_keyword])"
    and "\<forall>rel. row_count rel (db (gw f)) \<le> row_count rel (db (gw f'))
            \<and> row_count rel (db (gw f')) \<le> row_count rel (db (gw f)) + nat (size_f f)"
    using insert_relations_many_to_many_log [of f f'] by blast+
next
  assume "insert_relations_many_to_many f = Inl (err, f')"
  then show "\<forall>v. err \<noteq> DBError (IntegrityError v)"
    unfolding insert_relations_many_to_many_def by (rule for_callbacks_Inl)
next
  assume "callback f = Inl (DBError (IntegrityError v), f')"
  then show "attempt callback f = Inr f'" by (rule attempt_caught)
next
  assume a: "callback f = Inl (err, f') \<and> (\<forall>v. err \<noteq> DBError (IntegrityError v))"
  then show "attempt callback f = Inl (err, f')"
    by (simp add: attempt_raised)
  with a show "repeat (Suc n) (attempt callback) f = Inl (err, f')"
    by (simp add: then_do_def)
next
  assume "0 < size_f f \<and> role_ids f \<noteq> [] \<and> permission_ids f \<noteq> []
        \<and> faults (gw f) (length (issued (gw f))) = Some OperationalError"
  then show "\<exists>f1. insert_relations_many_to_many f = Inl (DBError OperationalError, f1)"
    by (simp add: first_fault_propagates)
qed

lemma attempt_insert_has_permission_to:
  assumes "only_integrity_faults (gw f)" and "pools_filled f"
  shows "\<exists>f'. attempt insert_has_permission_to f = Inr f'
     \<and> only_integrity_faults (gw f') \<and> pools_filled f' \<and> size_f f' = size_f f"
proof (cases "faults (gw f) (length (issued (gw f)))")
  case None
  with assms show ?thesis
    by (simp add: attempt_def insert_has_permission_to_def has_permission_to_def and_then_def
        choice_def split_beta insert_relation_def on_gateway_def execute_unique_def Let_def
        only_integrity_faults_def pools_filled_def)
next
  case (Some e)
  with assms(1) obtain v where "e = IntegrityError v"
    by (auto simp add: only_integrity_faults_def)
  with Some assms show ?thesis
    by (simp add: attempt_def insert_has_permission_to_def has_permission_to_def and_then_def
        choice_def split_beta insert_relation_def on_gateway_def execute_unique_def Let_def
        only_integrity_faults_def pools_filled_def)
qed

lemma attempt_insert_contains_item:
  assumes "only_integrity_faults (gw f)" and "pools_filled f"
  shows "\<exists>f'. attempt insert_contains_item f = Inr f'
     \<and> only_integrity_faults (gw f') \<and> pools_filled f' \<and> size_f f' = size_f f"
proof (cases "faults (gw f) (length (issued (gw f)))")
  case None
  with assms show ?thesis
    by (simp add: attempt_def insert_contains_item_def contains_item_def and_then_def
        choice_def split_beta insert_relation_def on_gateway_def execute_unique_def Let_def
        only_integrity_faults_def pools_filled_def)
next
  case (Some e)
  with assms(1) obtain v where "e = IntegrityError v"
    by (auto simp add: only_integrity_faults_def)
  with Some assms show ?thesis
    by (simp add: attempt_def insert_contains_item_def contains_item_def and_then_def
        choice_def split_beta insert_relation_def on_gateway_def execute_unique_def Let_def
        only_integrity_faults_def pools_filled_def)
qed

lemma attempt_insert_requires_product:
  assumes "only_integrity_faults (gw f)" and "pools_filled f"
  shows "\<exists>f'. attempt insert_requires_product f = Inr f'
     \<and> only_integrity_faults (gw f') \<and> pools_filled f' \<and> size_f f' = size_f f"
proof (cases "faults (gw f) (length (issued (gw f)))")
  case None
  with assms show ?thesis
    by (simp add: attempt_def insert_requires_product_def requires_product_def and_then_def
        choice_def split_beta insert_relation_def on_gateway_def execute_unique_def Let_def
        only_integrity_faults_def pools_filled_def)
next
  case (Some e)
  with assms(1) obtain v where "e = IntegrityError v"
    by (auto simp add: only_integrity_faults_def)
  with Some assms show ?thesis
    by (simp add: attempt_def insert_requires_product_def requires_product_def and_then_def
        choice_def split_beta insert_relation_def on_gateway_def execute_unique_def Let_def
        only_integrity_faults_def pools_filled_def)
qed

lemma attempt_insert_has_product_in_stock:
  assumes "only_integrity_faults (gw f)" and "pools_filled f"
  shows "\<exists>f'. attempt insert_has_product_in_stock f = Inr f'
     \<and> only_integrity_faults (gw f') \<and> pools_filled f' \<and> size_f f' = size_f f"
proof (cases "faults (gw f) (length (issued (gw f)))")
  case None
  with assms show ?thesis
    by (simp add: attempt_def insert_has_product_in_stock_def has_product_in_stock_def and_then_def
        choice_def split_beta insert_relation_def on_gateway_def execute_unique_def Let_def
        only_integrity_faults_def pools_filled_def)
next
  case (Some e)
  with assms(1) obtain v where "e = IntegrityError v"
    by (auto simp add: only_integrity_faults_def)
  with Some assms show ?thesis
    by (simp add: attempt_def insert_has_product_in_stock_def has_product_in_stock_def and_then_def
        choice_def split_beta insert_relation_def on_gateway_def execute_unique_def Let_def
        only_integrity_faults_def pools_filled_def)
qed

lemma attempt_insert_has_keyword:
  assumes "only_integrity_faults (gw f)" and "pools_filled f"
  shows "\<exists>f'. attempt insert_has_keyword f = Inr f'
     \<and> only_integrity_faults (gw f') \<and> pools_filled f' \<and> size_f f' = size_f f"
proof (cases "faults (gw f) (length (issued (gw f)))")
  case None
  with assms show ?thesis
    by (simp add: attempt_def insert_has_keyword_def has_keyword_def and_then_def
        choice_def split_beta insert_relation_def on_gateway_def execute_unique_def Let_def
        only_integrity_faults_def pools_filled_def)
next
  case (Some e)
  with assms(1) obtain v where "e = IntegrityError v"
    by (auto simp add: only_integrity_faults_def)
  with Some assms show ?thesis
    by (simp add: attempt_def insert_has_keyword_def has_keyword_def and_then_def
        choice_def split_beta insert_relation_def on_gateway_def execute_unique_def Let_def
        only_integrity_faults_def pools_filled_def)
qed

lemma repeat_completes:
  assumes step: "\<And>f. only_integrity_faults (gw f) \<Longrightarrow> pools_filled f \<Longrightarrow>
        \<exists>f'. step f = Inr f' \<and> only_integrity_faults (gw f') \<and> pools_filled f'
           \<and> size_f f' = size_f f"
    and "only_integrity_faults (gw f)" and "pools_filled f"
  shows "\<exists>f'. repeat n step f = Inr f' \<and> only_integrity_faults (gw f') \<and> pools_filled f'
           \<and> size_f f' = size_f f"
  using assms(2,3)
proof (induction n arbitrary: f)
  case 0
  then show ?case by simp
next
  case (Suc n)
  from step [OF Suc.prems] obtain f1 where
    f1: "step f = Inr f1" "only_integrity_faults (gw f1)" "pools_filled f1"
      "size_f f1 = size_f f"
    by blast
  from Suc.IH [OF f1(2,3)] f1(1,4) show ?case
    by (auto simp add: then_do_def)
qed

lemma insert_relations_many_to_many_completes:
  assumes "only_integrity_faults (gw f)" and "pools_filled f"
  shows "\<exists>f'. insert_relations_many_to_many f = Inr f'"
proof -
  obtain f1 where f1: "repeat (nat (size_f f)) (attempt insert_has_permission_to) f = Inr f1"
    "only_integrity_faults (gw f1)" "pools_filled f1" "size_f f1 = size_f f"
    using repeat_completes [of "attempt insert_has_permission_to" f, OF _ assms]
      attempt_insert_has_permission_to by blast
  obtain f2 where f2: "repeat (nat (size_f f1)) (attempt insert_contains_item) f1 = Inr f2"
    "only_integrity_faults (gw f2)" "pools_filled f2" "size_f f2 = size_f f1"
    using repeat_completes [of "attempt insert_contains_item" f1, OF _ f1(2,3)]
      attempt_insert_contains_item by blast
  obtain f3 where f3: "repeat (nat (size_f f2)) (attempt insert_requires_product) f2 = Inr f3"
    "only_integrity_faults (gw f3)" "pools_filled f3" "size_f f3 = size_f f2"
    using repeat_completes [of "attempt insert_requires_product" f2, OF _ f2(2,3)]
      attempt_insert_requires_product by blast
  obtain f4 where f4:
    "repeat (nat (size_f f3)) (attempt insert_has_product_in_stock) f3 = Inr f4"
    "only_integrity_faults (gw f4)" "pools_filled f4" "size_f f4 = size_f f3"
    using repeat_completes [of "attempt insert_has_product_in_stock" f3, OF _ f3(2,3)]
      attempt_insert_has_product_in_stock by blast
  obtain f5 where f5: "repeat (nat (size_f f4)) (attempt insert_has_keyword) f4 = Inr f5"
    using repeat_completes [of "attempt insert_has_keyword" f4, OF _ f4(2,3)]
      attempt_insert_has_keyword by blast
  from f1(1) f2(1) f3(1) f4(1) f5 show ?thesis
    by (simp add: insert_relations_many_to_many_def callbacks_def then_do_def)
qed

lemma map_sum_Inl: "map_sum fst h x = Inl err \<Longrightarrow> \<exists>s. x = Inl (err, s)"
  by (cases x) auto

lemma fk_callback:
  "map_sum fst (\<lambda>f. ()) (insert_has_permission_to feeder_fk)
     = Inl (DBError (IntegrityError ForeignKeyViolation))"
  by code_simp

lemma down_callback:
  "map_sum fst (\<lambda>f. ()) (insert_has_permission_to feeder_down) = Inl (DBError OperationalError)"
  by code_simp

lemma feeder_fk_ready: "only_integrity_faults (gw feeder_fk)" "pools_filled feeder_fk"
  by (simp_all add: feeder_fk_def feeder_links_def DatabaseFeeder_def gateway0_def
      only_integrity_faults_def pools_filled_def)

text \<open>
  Claim C5 as stated fails where it says that every database error other than a
  uniqueness conflict aborts the run: a foreign-key violation reported on the first
  insertion is an \<^verbatim>\<open>IntegrityError\<close> too, the attempt drops it and the populator
  returns.
\<close>

theorem foreign_key_violation_is_swallowed:
  "faults (gw feeder_fk) (length (issued (gw feeder_fk)))
     = Some (IntegrityError ForeignKeyViolation)
   \<and> map_sum fst (\<lambda>f. ()) (insert_has_permission_to feeder_fk)
     = Inl (DBError (IntegrityError ForeignKeyViolation))
   \<and> \<not> isl (attempt insert_has_permission_to feeder_fk)
   \<and> \<not> isl (insert_relations_many_to_many feeder_fk)"
proof -
  have "faults (gw feeder_fk) (length (issued (gw feeder_fk)))
     = Some (IntegrityError ForeignKeyViolation)"
    by (simp add: feeder_fk_def feeder_links_def DatabaseFeeder_def gateway0_def)
  moreover obtain s where "insert_has_permission_to feeder_fk
      = Inl (DBError (IntegrityError ForeignKeyViolation), s)"
    using map_sum_Inl [OF fk_callback] by blast
  then have "\<not> isl (attempt insert_has_permission_to feeder_fk)"
    by (simp add: attempt_def)
  moreover obtain f' where "insert_relations_many_to_many feeder_fk = Inr f'"
    using insert_relations_many_to_many_completes [OF feeder_fk_ready] by blast
  then have "\<not> isl (insert_relations_many_to_many feeder_fk)"
    by simp
  ultimately show ?thesis
    using fk_callback by simp
qed

theorem association_populator_attempts_witness:
  "(\<exists>f'. insert_relations_many_to_many feeder_fk = Inr f'
      \<and> issued (gw f') =
           [INSERT_relation R_has_permission_to, INSERT_relation R_contains_item,
            INSERT_relation R_requires_product, INSERT_relation R_has_product_in_stock,
            INSERT_relation R_has_keyword])
   \<and> (\<exists>f1. insert_relations_many_to_many feeder_down = Inl (DBError OperationalError, f1))
   \<and> (\<exists>s. insert_has_permission_to feeder_fk
             = Inl (DBError (IntegrityError ForeignKeyViolation), s)
          \<and> attempt insert_has_permission_to feeder_fk = Inr s)
   \<and> (\<exists>s. insert_has_permission_to feeder_down = Inl (DBError OperationalError, s)
          \<and> attempt insert_has_permission_to feeder_down = Inl (DBError OperationalError, s))"
proof -
  obtain f' where f': "insert_relations_many_to_many feeder_fk = Inr f'"
    using insert_relations_many_to_many_completes [OF feeder_fk_ready] by blast
  have start: "issued (gw feeder_fk) = []" "size_f feeder_fk = 1"
    by (simp_all add: feeder_fk_def feeder_links_def DatabaseFeeder_def gateway0_def)
  have "issued (gw f') = issued (gw feeder_fk)
           @ concat (map (\<lambda>rel. replicate (nat (size_f feeder_fk)) (INSERT_relation rel))
               [R_has_permission_to, R_contains_item, R_requires_product,
                R_has_product_in_stock, R_has_keyword])"
    using association_populator_attempts
      [where f = feeder_fk and f' = f', THEN conjunct1, THEN mp, OF f']
    by (rule conjunct1)
  then have one: "\<exists>f'. insert_relations_many_to_many feeder_fk = Inr f'
      \<and> issued (gw f') =
           [INSERT_relation R_has_permission_to, INSERT_relation R_contains_item,
            INSERT_relation R_requires_product, INSERT_relation R_has_product_in_stock,
            INSERT_relation R_has_keyword]"
    using f' by (simp add: start)
  have down: "0 < size_f feeder_down \<and> role_ids feeder_down \<noteq> []
        \<and> permission_ids feeder_down \<noteq> []
        \<and> faults (gw feeder_down) (length (issued (gw feeder_down))) = Some OperationalError"
    by (simp add: feeder_down_def feeder_links_def DatabaseFeeder_def gateway0_def)
  have two: "\<exists>f1. insert_relations_many_to_many feeder_down = Inl (DBError OperationalError, f1)"
    using association_populator_attempts [where f = feeder_down,
        THEN conjunct2, THEN conjunct2, THEN conjunct2, THEN conjunct2, THEN mp, OF down] .
  obtain s where s: "insert_has_permission_to feeder_fk
      = Inl (DBError (IntegrityError ForeignKeyViolation), s)"
    using map_sum_Inl [OF fk_callback] by blast
  have "attempt insert_has_permission_to feeder_fk = Inr s"
    using association_populator_attempts
      [where f = feeder_fk and callback = insert_has_permission_to
         and v = ForeignKeyViolation and f' = s,
       THEN conjunct2, THEN conjunct2, THEN conjunct1, THEN mp, OF s] .
  with s have three: "\<exists>s. insert_has_permission_to feeder_fk
             = Inl (DBError (IntegrityError ForeignKeyViolation), s)
          \<and> attempt insert_has_permission_to feeder_fk = Inr s"
    by blast
  obtain t where t: "insert_has_permission_to feeder_down = Inl (DBError OperationalError, t)"
    using map_sum_Inl [OF down_callback] by blast
  then have "insert_has_permission_to feeder_down = Inl (DBError OperationalError, t)
      \<and> (\<forall>v. DBError OperationalError \<noteq> DBError (IntegrityError v))"
    by simp
  then have "attempt insert_has_permission_to feeder_down = Inl (DBError OperationalError, t)"
    using association_populator_attempts
      [where f = feeder_down and callback = insert_has_permission_to
         and err = "DBError OperationalError" and f' = t,
       THEN conjunct2, THEN conjunct2, THEN conjunct2, THEN conjunct1, THEN mp]
    by blast
  with t have four: "\<exists>s. insert_has_permission_to feeder_down = Inl (DBError OperationalError, s)
          \<and> attempt insert_has_permission_to feeder_down = Inl (DBError OperationalError, s)"
    by blast
  from one two three four show ?thesis by (intro conjI)
qed

section \<open>The order of the stages in the pass\<close>

subsection \<open>The statements each stage sends\<close>




















lemma length_fold_add_row: "length (fold add_row rs t) = length t + length rs"
  by (simp add: fold_add_row)





lemma prepared_ext [simp]: "prepared k (f\<lparr>ext := e\<rparr>) = prepared k f"
  by (simp add: prepared_def)






































end
